theory Spec2Isabelle
  imports Main "HOL-Library.Word"
begin

unbundle bit_operations_syntax

section \<open>Go runtime values used by the command\<close>

text \<open>
  A Go call either returns a value or panics; a panic carries its message.  The result of
  every modelled function that can panic is a sum with the panic on the left.  An \<open>error\<close>
  value is its message; \<open>None\<close> stands for \<open>nil\<close>.
\<close>

datatype panic = Panic string

type_synonym 'a go = "panic + 'a"

type_synonym error = "string option"

type_synonym bytes = string

type_synonym path = string

definition newline :: string where
  "newline = [CHR 0x0A]"

subsection \<open>Package strings\<close>

definition HasPrefix :: "string \<Rightarrow> string \<Rightarrow> bool" where
  "HasPrefix s prefix = (length prefix \<le> length s \<and> take (length prefix) s = prefix)"

definition HasSuffix :: "string \<Rightarrow> string \<Rightarrow> bool" where
  "HasSuffix s suffix = (length suffix \<le> length s \<and> drop (length s - length suffix) s = suffix)"

text \<open>The slice expression \<open>s[:hi]\<close>: out of range indices are a run-time panic.\<close>

definition slice_to :: "string \<Rightarrow> int \<Rightarrow> string go" where
  "slice_to s hi =
     (if 0 \<le> hi \<and> hi \<le> int (length s) then Inr (take (nat hi) s)
      else Inl (Panic ''slice bounds out of range''))"

text \<open>
  \<open>strings.Split(s, "\n")\<close>: the pieces between the newlines, always at least one piece.
  \<open>split_acc\<close> carries the piece being read.
\<close>

fun split_acc :: "string \<Rightarrow> string \<Rightarrow> string list" where
  "split_acc cur [] = [cur]"
| "split_acc cur (c # cs) =
     (if c = CHR 0x0A then cur # split_acc [] cs else split_acc (cur @ [c]) cs)"

definition Split_newline :: "string \<Rightarrow> string list" where
  "Split_newline s = split_acc [] s"

subsection \<open>Formatting verbs of package fmt\<close>

definition digit_char :: "nat \<Rightarrow> char" where
  "digit_char n = ''0123456789abcdef'' ! n"

text \<open>The verb \<open>%d\<close> on a non-negative value.\<close>

fun decimal :: "nat \<Rightarrow> string" where
  "decimal n = (if n < 10 then [digit_char n] else decimal (n div 10) @ [digit_char (n mod 10)])"

declare decimal.simps [simp del]

text \<open>
  The verb \<open>%x\<close> on the sixteen bytes of an MD5 digest: two lower-case hexadecimal digits
  for each byte, first byte first.  The digest is held as a 128-bit word whose most
  significant byte is the first byte of the sum.
\<close>

definition nibble :: "128 word \<Rightarrow> nat \<Rightarrow> nat" where
  "nibble w i = unat (drop_bit (4 * (31 - i)) w AND 15)"

definition hex :: "128 word \<Rightarrow> string" where
  "hex w = map (\<lambda>i. digit_char (nibble w i)) [0..<32]"

section \<open>The file system\<close>

text \<open>
  The files the command touches, by path.  Every call into the operating system can fail for
  a reason outside this state (permissions, a full disk): such a fault is an argument of the
  call, \<open>None\<close> when the operating system lets the call through.  A failed call is modelled
  as leaving the files as they were.
\<close>

type_synonym filesys = "path \<rightharpoonup> bytes"

definition Rename :: "error \<Rightarrow> path \<Rightarrow> path \<Rightarrow> filesys \<Rightarrow> error \<times> filesys" where
  "Rename fault oldpath newpath fs =
     (case fault of
        Some e \<Rightarrow> (Some e, fs)
      | None \<Rightarrow>
          (case fs oldpath of
             None \<Rightarrow> (Some ''no such file or directory'', fs)
           | Some c \<Rightarrow> (None, (fs(oldpath := None))(newpath \<mapsto> c))))"

definition CopyFile :: "error \<Rightarrow> path \<Rightarrow> path \<Rightarrow> filesys \<Rightarrow> error \<times> filesys" where
  "CopyFile fault src dst fs =
     (case fault of
        Some e \<Rightarrow> (Some e, fs)
      | None \<Rightarrow>
          (case fs src of
             None \<Rightarrow> (Some ''no such file or directory'', fs)
           | Some c \<Rightarrow> (None, fs(dst \<mapsto> c))))"

definition WriteFile :: "error \<Rightarrow> path \<Rightarrow> bytes \<Rightarrow> filesys \<Rightarrow> error \<times> filesys" where
  "WriteFile fault name data fs =
     (case fault of
        Some e \<Rightarrow> (Some e, fs)
      | None \<Rightarrow> (None, fs(name \<mapsto> data)))"

section \<open>External collaborators\<close>

text \<open>
  The packages the command calls and that are not part of it are parameters of the model:
  \<open>printer.Fprint\<close> (an error or the printed bytes of a tree), \<open>format.Source\<close>,
  \<open>crypto/md5\<close>, the verb \<open>%q\<close>, and \<open>parser.FindOriginalStartLine\<close>.
\<close>

record 'n ext =
  Fprint :: "'n \<Rightarrow> string + bytes"
  Source :: "bytes \<Rightarrow> string + bytes"
  md5 :: "bytes \<Rightarrow> 128 word"
  quoted :: "string \<Rightarrow> string"
  FindOriginalStartLine :: "bytes \<Rightarrow> int"

text \<open>
  A finished command: its combined output and the \<open>err\<close> of \<open>CombinedOutput\<close> or \<open>Wait\<close>,
  which is \<open>nil\<close>, an \<open>*exec.ExitError\<close> with its exit status, or another error.
\<close>

datatype cmd_err = NoError | ExitError int | OtherError string

record run =
  combined :: bytes
  err :: cmd_err

text \<open>
  What the environment does while one mutant is processed: the faults of the file system
  calls and the runs of \<open>diff\<close>, of \<open>go test\<close> and of the user's exec command.  The commands
  are taken not to touch the original file or its \<open>.tmp\<close> copy.
\<close>

record outcomes =
  write_fault :: error
  diff_cmd :: run
  rename_fault :: error
  copy_fault :: error
  test_cmd :: run
  restore_fault :: error
  exec_start :: error
  exec_wait :: cmd_err

section \<open>Options, mutants and the report\<close>

record opts =
  General_Debug :: bool
  General_Verbose :: bool
  Config_SilentMode :: bool
  Exec_NoExec :: bool
  Exec_Exec :: string

record mutant =
  MutatorName :: string
  OriginalFilePath :: string
  OriginalStartLine :: int
  OriginalSourceCode :: string
  MutatedSourceCode :: string
  Diff :: string
  ProcessOutput :: string

definition empty_mutant :: mutant where
  "empty_mutant =
     \<lparr>MutatorName = [], OriginalFilePath = [], OriginalStartLine = 0, OriginalSourceCode = [],
      MutatedSourceCode = [], Diff = [], ProcessOutput = []\<rparr>"

text \<open>The counters are Go \<open>int\<close>s; they count mutants and stay far below \<open>2^63\<close>.\<close>

record stats =
  KilledCount :: int
  EscapedCount :: int
  SkippedCount :: int
  DuplicatedCount :: int
  ErrorCount :: int

record report =
  Killed :: "mutant list"
  Escaped :: "mutant list"
  Errored :: "mutant list"
  Stats :: stats

text \<open>What the command prints, in order.\<close>

datatype event =
    Stdout string
  | Stderr string
  | PrintPass string
  | PrintFail string
  | PrintSkip string
  | PrintUnknown string
  | PrintDiff bytes

definition Debug :: "opts \<Rightarrow> string \<Rightarrow> event list" where
  "Debug opt s = (if General_Debug opt then [Stdout (s @ newline)] else [])"

definition Verbose :: "opts \<Rightarrow> string \<Rightarrow> event list" where
  "Verbose opt s = (if General_Verbose opt \<or> General_Debug opt then [Stdout (s @ newline)] else [])"

section \<open>saveAST\<close>

text \<open>
  The result is the triple the Go function returns, \<open>(checksum, duplicate, err)\<close>, with
  the map \<open>mutationBlackList\<close> (a Go map is shared with the caller, so an insertion is kept
  on every return) and the files.  \<open>io.MultiWriter(h, &buf)\<close> hands the printed bytes both to
  the hash and to the buffer.
\<close>

definition saveAST ::
  "'n ext \<Rightarrow> error \<Rightarrow> string set \<Rightarrow> path \<Rightarrow> 'n \<Rightarrow> filesys
     \<Rightarrow> (string \<times> bool \<times> error) \<times> string set \<times> filesys"
where
  "saveAST x wfault mutationBlackList file node fs =
     (case Fprint x node of
        Inl e \<Rightarrow> (([], False, Some e), mutationBlackList, fs)
      | Inr buf \<Rightarrow>
          (let checksum = hex (md5 x buf) in
           if checksum \<in> mutationBlackList then ((checksum, True, None), mutationBlackList, fs)
           else
             (let mutationBlackList' = insert checksum mutationBlackList in
              case Source x buf of
                Inl e \<Rightarrow> (([], False, Some e), mutationBlackList', fs)
              | Inr src \<Rightarrow>
                  (case WriteFile wfault file src fs of
                     (Some e, fs') \<Rightarrow> (([], False, Some e), mutationBlackList', fs')
                   | (None, fs') \<Rightarrow> ((checksum, False, None), mutationBlackList', fs')))))"

section \<open>mutateExec\<close>

text \<open>The exit status read off the \<open>err\<close> of a finished command; any other error panics.\<close>

definition exit_status :: "cmd_err \<Rightarrow> int go" where
  "exit_status e =
     (case e of
        NoError \<Rightarrow> Inr 0
      | ExitError c \<Rightarrow> Inr c
      | OtherError m \<Rightarrow> Inl (Panic m))"

text \<open>The switch over the status of \<open>go test\<close>: the new \<open>execExitCode\<close> and what is printed.\<close>

definition test_switch :: "opts \<Rightarrow> bytes \<Rightarrow> int \<Rightarrow> int \<times> event list" where
  "test_switch opt diff execExitCode =
     (if execExitCode = 0 then
        (1, if \<not> Config_SilentMode opt then [PrintDiff diff] else [])
      else if execExitCode = 1 then
        (0, if General_Debug opt then [PrintDiff diff] else [])
      else if execExitCode = 2 then
        (execExitCode,
         (if General_Verbose opt then [Stdout (''Mutation did not compile'' @ newline)] else [])
         @ (if General_Debug opt then [PrintDiff diff] else []))
      else
        (execExitCode,
         if \<not> Config_SilentMode opt
         then [Stdout (''Unknown exit code'' @ newline), PrintDiff diff] else []))"

text \<open>
  The built-in command from the first \<open>os.Rename\<close> to the \<open>return\<close>: everything that runs
  with the deferred restore pending.
\<close>

definition swap_and_test ::
  "opts \<Rightarrow> outcomes \<Rightarrow> path \<Rightarrow> path \<Rightarrow> bytes \<Rightarrow> mutant \<Rightarrow> filesys
     \<Rightarrow> int go \<times> mutant \<times> filesys \<times> event list"
where
  "swap_and_test opt oc file mutationFile diff mutant fs =
     (case Rename (rename_fault oc) file (file @ ''.tmp'') fs of
        (Some e, fs1) \<Rightarrow> (Inl (Panic e), mutant, fs1, [])
      | (None, fs1) \<Rightarrow>
          (case CopyFile (copy_fault oc) mutationFile file fs1 of
             (Some e, fs2) \<Rightarrow> (Inl (Panic e), mutant, fs2, [])
           | (None, fs2) \<Rightarrow>
               (case exit_status (err (test_cmd oc)) of
                  Inl p \<Rightarrow> (Inl p, mutant, fs2, [])
                | Inr execExitCode \<Rightarrow>
                    (let ev = (if General_Debug opt
                               then [Stdout (combined (test_cmd oc) @ newline)] else []);
                         mutant' = mutant\<lparr>Diff := diff\<rparr>;
                         (code, ev') = test_switch opt diff execExitCode
                     in (Inr code, mutant', fs2, ev @ ev')))))"

text \<open>The deferred function: \<^verbatim>\<open>_ = os.Rename(file+".tmp", file)\<close>, its error dropped.\<close>

definition restore :: "error \<Rightarrow> path \<Rightarrow> filesys \<Rightarrow> filesys" where
  "restore fault file fs = snd (Rename fault (file @ ''.tmp'') file fs)"

text \<open>
  \<open>mutateExec\<close> returns the exit code or panics; in both cases the files are those left
  behind after the deferred function has run (it is registered only once \<open>diff\<close> has been
  checked).  The mutant record is updated in place, so it is part of the result.
\<close>

definition mutateExec ::
  "opts \<Rightarrow> 'n ext \<Rightarrow> outcomes \<Rightarrow> path \<Rightarrow> path \<Rightarrow> string list \<Rightarrow> mutant \<Rightarrow> filesys
     \<Rightarrow> int go \<times> mutant \<times> filesys \<times> event list"
where
  "mutateExec opt x oc file mutationFile execs mutant fs =
     (if length execs = 0 then
        (let ev0 = Debug opt ''Execute built-in exec command for mutation'';
             diff = combined (diff_cmd oc);
             mutant1 = mutant\<lparr>OriginalStartLine := FindOriginalStartLine x diff\<rparr>
         in case exit_status (err (diff_cmd oc)) of
              Inl p \<Rightarrow> (Inl p, mutant1, fs, ev0)
            | Inr execExitCode \<Rightarrow>
                if execExitCode \<noteq> 0 \<and> execExitCode \<noteq> 1 then
                  (Inl (Panic ''Could not execute diff on mutation file''), mutant1, fs,
                   ev0 @ [Stdout (diff @ newline)])
                else
                  (let (r, mutant2, fs2, ev) =
                         swap_and_test opt oc file mutationFile diff mutant1 fs
                   in (r, mutant2, restore (restore_fault oc) file fs2, ev0 @ ev)))
      else
        (let ev0 = Debug opt (''Execute '' @ quoted x (Exec_Exec opt) @ '' for mutation'') in
         case exec_start oc of
           Some e \<Rightarrow> (Inl (Panic e), mutant, fs, ev0)
         | None \<Rightarrow>
             (case exit_status (exec_wait oc) of
                Inl p \<Rightarrow> (Inl p, mutant, fs, ev0)
              | Inr execExitCode \<Rightarrow> (Inr execExitCode, mutant, fs, ev0))))"

section \<open>mutate\<close>

text \<open>The verb \<open>%d\<close> on an exit code.\<close>

definition decimal_int :: "int \<Rightarrow> string" where
  "decimal_int i = (if i < 0 then ''-'' @ decimal (nat (- i)) else decimal (nat i))"

text \<open>
  The switch over \<open>execExitCode\<close> in \<open>mutate\<close>: the report after it and what is printed.
\<close>

definition classify :: "opts \<Rightarrow> string \<Rightarrow> int \<Rightarrow> mutant \<Rightarrow> report \<Rightarrow> report \<times> event list" where
  "classify opt msg execExitCode mutant r =
     (if execExitCode = 0 then
        (let out = ''PASS '' @ msg @ newline in
         (r\<lparr>Killed := Killed r @ [mutant\<lparr>ProcessOutput := out\<rparr>],
            Stats := (Stats r)\<lparr>KilledCount := KilledCount (Stats r) + 1\<rparr>\<rparr>,
          if \<not> Config_SilentMode opt then [PrintPass out] else []))
      else if execExitCode = 1 then
        (let out = ''FAIL '' @ msg @ newline in
         (r\<lparr>Escaped := Escaped r @ [mutant\<lparr>ProcessOutput := out\<rparr>],
            Stats := (Stats r)\<lparr>EscapedCount := EscapedCount (Stats r) + 1\<rparr>\<rparr>,
          if \<not> Config_SilentMode opt then [PrintFail out] else []))
      else if execExitCode = 2 then
        (let out = ''SKIP '' @ msg @ newline in
         (r\<lparr>Stats := (Stats r)\<lparr>SkippedCount := SkippedCount (Stats r) + 1\<rparr>\<rparr>,
          if \<not> Config_SilentMode opt then [PrintSkip out] else []))
      else
        (let out = ''UNKOWN exit code for '' @ msg @ newline in
         (r\<lparr>Errored := Errored r @ [mutant\<lparr>ProcessOutput := out\<rparr>],
            Stats := (Stats r)\<lparr>ErrorCount := ErrorCount (Stats r) + 1\<rparr>\<rparr>,
          if \<not> Config_SilentMode opt then [PrintUnknown out] else [])))"

text \<open>
  Everything \<open>mutate\<close> reads and writes: the files, the map \<open>mutationBlackList\<close>, the report
  and the output so far.  The process can end inside \<open>mutate\<close>, by a panic or by
  \<open>log.Fatal\<close>.
\<close>

record world =
  files :: filesys
  blacklist :: "string set"
  rep :: report
  printed :: "event list"

datatype stop = Panicked panic | Fatal string

text \<open>The branch \<open>!opts.Exec.NoExec\<close>: run the mutant, read the mutated file, classify.\<close>

definition run_mutant ::
  "opts \<Rightarrow> 'n ext \<Rightarrow> outcomes \<Rightarrow> path \<Rightarrow> path \<Rightarrow> string list \<Rightarrow> string \<Rightarrow> mutant \<Rightarrow> world
     \<Rightarrow> stop option \<times> world"
where
  "run_mutant opt x oc originalFile mutationFile execs checksum mutant w =
     (case mutateExec opt x oc originalFile mutationFile execs mutant (files w) of
        (Inl p, mutant1, fs, ev) \<Rightarrow>
          (Some (Panicked p), w\<lparr>files := fs, printed := printed w @ ev\<rparr>)
      | (Inr execExitCode, mutant1, fs, ev) \<Rightarrow>
          (let w1 = w\<lparr>files := fs,
                      printed := printed w @ ev
                        @ Debug opt (''Exited with '' @ decimal_int execExitCode)\<rparr>
           in case fs mutationFile of
                None \<Rightarrow> (Some (Fatal ''no such file or directory''), w1)
              | Some mutatedSourceCode \<Rightarrow>
                  (let mutant2 = mutant1\<lparr>MutatedSourceCode := mutatedSourceCode\<rparr>;
                       msg = quoted x mutationFile @ '' with checksum '' @ checksum;
                       (r, ev2) = classify opt msg execExitCode mutant2 (rep w1)
                   in (None, w1\<lparr>rep := r, printed := printed w1 @ ev2\<rparr>))))"

text \<open>
  The body of the loop over the channel \<open>changed\<close>, for one state \<open>src\<close> of the tree handed
  over by the walker.
\<close>

definition mutate_step ::
  "opts \<Rightarrow> 'n ext \<Rightarrow> outcomes \<Rightarrow> string \<Rightarrow> path \<Rightarrow> path \<Rightarrow> string list \<Rightarrow> nat \<Rightarrow> 'n \<Rightarrow> world
     \<Rightarrow> stop option \<times> world"
where
  "mutate_step opt x oc name originalFile mutatedFile execs mutationID src w =
     (case files w originalFile of
        None \<Rightarrow> (Some (Fatal ''no such file or directory''), w)
      | Some originalSourceCode \<Rightarrow>
          (let mutant = empty_mutant\<lparr>MutatorName := name, OriginalFilePath := originalFile,
                                      OriginalSourceCode := originalSourceCode\<rparr>;
               mutationFile = mutatedFile @ ''.'' @ decimal mutationID;
               ((checksum, duplicate, e), bl, fs) =
                  saveAST x (write_fault oc) (blacklist w) mutationFile src (files w);
               w1 = w\<lparr>files := fs, blacklist := bl\<rparr>
           in case e of
                Some m \<Rightarrow>
                  (None, w1\<lparr>printed := printed w1 @ [Stdout (''INTERNAL ERROR '' @ m @ newline)]\<rparr>)
              | None \<Rightarrow>
                  if duplicate then
                    (None,
                     w1\<lparr>printed := printed w1
                           @ Debug opt (quoted x mutationFile @ '' is a duplicate, we ignore it''),
                        rep := (rep w1)\<lparr>Stats := (Stats (rep w1))
                                 \<lparr>DuplicatedCount := DuplicatedCount (Stats (rep w1)) + 1\<rparr>\<rparr>\<rparr>)
                  else
                    (let w2 = w1\<lparr>printed := printed w1
                                   @ Debug opt (''Save mutation into '' @ quoted x mutationFile
                                                @ '' with checksum '' @ checksum)\<rparr>
                     in if \<not> Exec_NoExec opt
                        then run_mutant opt x oc originalFile mutationFile execs checksum mutant w2
                        else (None, w2))))"

text \<open>
  The loop over the channel for one mutator: \<open>ys\<close> are the states of the tree the walker
  hands over, each with what the environment does while it is processed.  The result holds
  the next \<open>mutationID\<close>.
\<close>

fun mutate_changed ::
  "opts \<Rightarrow> 'n ext \<Rightarrow> string \<Rightarrow> path \<Rightarrow> path \<Rightarrow> string list \<Rightarrow> ('n \<times> outcomes) list \<Rightarrow> nat \<Rightarrow> world
     \<Rightarrow> stop option \<times> nat \<times> world"
where
  "mutate_changed opt x name originalFile mutatedFile execs [] mutationID w =
     (None, mutationID, w)"
| "mutate_changed opt x name originalFile mutatedFile execs ((src, oc) # ys) mutationID w =
     (case mutate_step opt x oc name originalFile mutatedFile execs mutationID src w of
        (Some s, w') \<Rightarrow> (Some s, mutationID, w')
      | (None, w') \<Rightarrow>
          mutate_changed opt x name originalFile mutatedFile execs ys (mutationID + 1) w')"

text \<open>
  The loop over the mutators, each given with its name and what walking with it yields; the
  name of the mutator is printed in debug mode before the walk starts.
\<close>

fun mutate ::
  "opts \<Rightarrow> 'n ext \<Rightarrow> (string \<times> ('n \<times> outcomes) list) list \<Rightarrow> nat \<Rightarrow> path \<Rightarrow> path
     \<Rightarrow> string list \<Rightarrow> world \<Rightarrow> stop option \<times> nat \<times> world"
where
  "mutate opt x [] mutationID originalFile mutatedFile execs w = (None, mutationID, w)"
| "mutate opt x ((name, ys) # mutators) mutationID originalFile mutatedFile execs w =
     (case mutate_changed opt x name originalFile mutatedFile execs ys mutationID
             (w\<lparr>printed := printed w @ Debug opt (''Mutator '' @ name)\<rparr>) of
        (Some s, mutationID', w') \<Rightarrow> (Some s, mutationID', w')
      | (None, mutationID', w') \<Rightarrow>
          mutate opt x mutators mutationID' originalFile mutatedFile execs w')"

section \<open>mainCmd: the blacklist files and the enabled mutators\<close>

text \<open>
  \<open>exitError\<close> prints its message and a newline to the standard error and returns
  \<open>returnError\<close>, the fourth constant of the \<open>iota\<close> block.
\<close>

definition returnError :: int where
  "returnError = 3"

definition exitError :: "string \<Rightarrow> event list \<times> int" where
  "exitError msg = ([Stderr (msg @ newline)], returnError)"

text \<open>
  The loop over the lines of one blacklist file; \<open>q\<close> is the verb \<open>%q\<close>.  A return of
  \<open>mainCmd\<close> is on the left, the map after the loop on the right.
\<close>

fun blacklist_lines ::
  "(string \<Rightarrow> string) \<Rightarrow> string list \<Rightarrow> string set \<Rightarrow> (event list \<times> int) + string set"
where
  "blacklist_lines q [] mutationBlackList = Inr mutationBlackList"
| "blacklist_lines q (line # ls) mutationBlackList =
     (if line = [] then blacklist_lines q ls mutationBlackList
      else if length line \<noteq> 32 then Inl (exitError (q line @ '' is not a MD5 checksum''))
      else blacklist_lines q ls (insert line mutationBlackList))"

text \<open>The loop over \<open>opts.Files.Blacklist\<close>; a missing file is the read error.\<close>

fun read_blacklists ::
  "(string \<Rightarrow> string) \<Rightarrow> filesys \<Rightarrow> path list \<Rightarrow> string set \<Rightarrow> (event list \<times> int) + string set"
where
  "read_blacklists q fs [] mutationBlackList = Inr mutationBlackList"
| "read_blacklists q fs (f # fs') mutationBlackList =
     (case fs f of
        None \<Rightarrow>
          Inl (exitError (''Cannot read blacklist file '' @ q f
                          @ '': open '' @ f @ '': no such file or directory''))
      | Some c \<Rightarrow>
          (case blacklist_lines q (Split_newline c) mutationBlackList of
             Inl r \<Rightarrow> Inl r
           | Inr mutationBlackList' \<Rightarrow> read_blacklists q fs fs' mutationBlackList'))"

text \<open>
  \<open>mainCmd\<close> from the blacklist on: \<open>rest\<close> is all that follows (selecting the mutators,
  mutating the files, writing the report), which starts from the map read here.
\<close>

definition mainCmd_blacklist ::
  "(string \<Rightarrow> string) \<Rightarrow> filesys \<Rightarrow> path list \<Rightarrow> (string set \<Rightarrow> 'r) \<Rightarrow> (event list \<times> int) + 'r"
where
  "mainCmd_blacklist q fs blacklistFiles rest =
     (case read_blacklists q fs blacklistFiles {} of
        Inl r \<Rightarrow> Inl r
      | Inr mutationBlackList \<Rightarrow> Inr (rest mutationBlackList))"

text \<open>
  The condition of the inner loop at the label \<open>MUTATOR\<close>,
  \<^verbatim>\<open>(pattern && strings.HasPrefix(name, d[:len(d)-2])) || (!pattern && name == d)\<close>,
  with Go's short-circuit evaluation: the slice is only taken when \<open>pattern\<close> holds.
\<close>

definition disable_matches :: "string \<Rightarrow> string \<Rightarrow> bool go" where
  "disable_matches name d =
     (let pattern = HasSuffix d ''*'' in
      if pattern then
        (case slice_to d (int (length d) - 2) of
           Inl p \<Rightarrow> Inl p
         | Inr pre \<Rightarrow> Inr (HasPrefix name pre))
      else Inr (name = d))"

text \<open>The inner loop over the disable arguments: the first match leaves it (continue MUTATOR).\<close>

fun disabled_by :: "string \<Rightarrow> string list \<Rightarrow> bool go" where
  "disabled_by name [] = Inr False"
| "disabled_by name (d # ds) =
     (case disable_matches name d of
        Inl p \<Rightarrow> Inl p
      | Inr True \<Rightarrow> Inr True
      | Inr False \<Rightarrow> disabled_by name ds)"

record 'm mutatorItem =
  Name :: string
  Mutator :: 'm

text \<open>
  The outer loop over \<open>mutator.List()\<close>; \<open>new\<close> is the registry lookup \<open>mutator.New\<close>,
  \<open>mutators\<close> the slice built so far.
\<close>

fun select_mutators ::
  "(string \<Rightarrow> 'm) \<Rightarrow> string list \<Rightarrow> string list \<Rightarrow> 'm mutatorItem list \<Rightarrow> 'm mutatorItem list go"
where
  "select_mutators new [] disable mutators = Inr mutators"
| "select_mutators new (name # names) disable mutators =
     (case disabled_by name disable of
        Inl p \<Rightarrow> Inl p
      | Inr True \<Rightarrow> select_mutators new names disable mutators
      | Inr False \<Rightarrow>
          select_mutators new names disable (mutators @ [\<lparr>Name = name, Mutator = new name\<rparr>]))"

section \<open>The syntax tree and the mutator loop/range\_break\<close>

text \<open>
  The tree of package \<open>go/ast\<close> is a graph of nodes that point to each other, and the
  mutators rewrite it in place.  The model keeps the nodes in a store: the address of a node
  is its index, and allocating a node appends it.  Only the shapes the mutator looks at are
  told apart.  \<open>RangeStmt\<close> has the fields \<open>Key\<close>, \<open>Value\<close>, \<open>X\<close> and \<open>Body\<close> (a pointer to a
  block, possibly \<open>nil\<close>), \<open>BlockStmt\<close> the field \<open>List\<close>, \<open>BranchStmt\<close> the fields \<open>Tok\<close>
  and \<open>Label\<close>; any other node has a kind and children.
\<close>

type_synonym addr = nat

datatype token = BREAK | CONTINUE | GOTO | FALLTHROUGH

datatype node =
    RangeStmt "addr option" "addr option" addr "addr option"
  | BlockStmt "addr list"
  | BranchStmt token "addr option"
  | OtherNode string "addr list"

type_synonym heap = "node list"

definition deref :: "heap \<Rightarrow> addr \<Rightarrow> node option" where
  "deref h a = (if a < length h then Some (h ! a) else None)"

definition alloc :: "node \<Rightarrow> heap \<Rightarrow> addr \<times> heap" where
  "alloc n h = (length h, h @ [n])"

definition nil_dereference :: panic where
  "nil_dereference = Panic ''invalid memory address or nil pointer dereference''"

text \<open>Reading \<open>b.List\<close> through a pointer \<open>b\<close> to a block.\<close>

definition read_List :: "heap \<Rightarrow> addr option \<Rightarrow> addr list go" where
  "read_List h b =
     (case b of
        None \<Rightarrow> Inl nil_dereference
      | Some a \<Rightarrow>
          (case deref h a of
             Some (BlockStmt l) \<Rightarrow> Inr l
           | _ \<Rightarrow> Inl nil_dereference))"

text \<open>The assignments \<open>b.List = l\<close> and \<open>n.Body = b\<close>.\<close>

definition assign_List :: "addr \<Rightarrow> addr list \<Rightarrow> heap \<Rightarrow> heap" where
  "assign_List b l h =
     (case deref h b of
        Some (BlockStmt _) \<Rightarrow> h[b := BlockStmt l]
      | _ \<Rightarrow> h)"

definition assign_Body :: "addr \<Rightarrow> addr option \<Rightarrow> heap \<Rightarrow> heap" where
  "assign_Body n b h =
     (case deref h n of
        Some (RangeStmt k v x _) \<Rightarrow> h[n := RangeStmt k v x b]
      | _ \<Rightarrow> h)"

text \<open>A \<open>mutator.Mutation\<close>: two closures over the tree.\<close>

record mutation =
  Change :: "heap \<Rightarrow> heap"
  Reset :: "heap \<Rightarrow> heap"

text \<open>
  \<open>MutatorLoopRangeBreak\<close>: the mutations for \<open>node\<close> and the store after the call, which
  holds the new block and the new \<open>break\<close>.  The two \<open>append\<close> calls fill the list of the
  new block, which starts empty.
\<close>

definition MutatorLoopRangeBreak :: "heap \<Rightarrow> addr \<Rightarrow> (mutation list \<times> heap) go" where
  "MutatorLoopRangeBreak h node =
     (case deref h node of
        Some (RangeStmt k v x body) \<Rightarrow>
          (let (newBody, h1) = alloc (BlockStmt []) h;
               oldBody = body;
               (newBreakStmt, h2) = alloc (BranchStmt BREAK None) h1;
               h3 = assign_List newBody ([] @ [newBreakStmt]) h2
           in case read_List h3 body of
                Inl p \<Rightarrow> Inl p
              | Inr l \<Rightarrow>
                  (let h4 = assign_List newBody ([newBreakStmt] @ l) h3
                   in Inr ([\<lparr>Change = assign_Body node (Some newBody),
                              Reset = assign_Body node oldBody\<rparr>], h4)))
      | _ \<Rightarrow> Inr ([], h))"

text \<open>
  Modelled from the spec: the walker \<open>MutateWalk\<close> (section 4.E), which is not among the
  sources.  For each node it calls the operator and, for each mutation in order, invokes
  apply, yields the mutated tree, and invokes revert.  \<open>nodes\<close> are the nodes of the file in
  the order of the traversal; the result lists the mutated trees that were yielded.
\<close>

fun run_mutations :: "mutation list \<Rightarrow> heap \<Rightarrow> heap list \<times> heap" where
  "run_mutations [] h = ([], h)"
| "run_mutations (m # ms) h =
     (let h1 = Change m h;
          h2 = Reset m h1;
          (ys, h3) = run_mutations ms h2
      in (h1 # ys, h3))"

fun MutateWalk :: "addr list \<Rightarrow> heap \<Rightarrow> (heap list \<times> heap) go" where
  "MutateWalk [] h = Inr ([], h)"
| "MutateWalk (n # nodes) h =
     (case MutatorLoopRangeBreak h n of
        Inl p \<Rightarrow> Inl p
      | Inr (ms, h1) \<Rightarrow>
          (let (ys, h2) = run_mutations ms h1
           in case MutateWalk nodes h2 of
                Inl p \<Rightarrow> Inl p
              | Inr (zs, h3) \<Rightarrow> Inr (ys @ zs, h3)))"

text \<open>
  Which nodes are range statements, and the typing of a range statement that the Go parser
  guarantees: its \<open>Body\<close> points to a block.
\<close>

definition is_range :: "heap \<Rightarrow> addr \<Rightarrow> bool" where
  "is_range h a = (case deref h a of Some (RangeStmt _ _ _ _) \<Rightarrow> True | _ \<Rightarrow> False)"

definition body_list :: "heap \<Rightarrow> addr \<Rightarrow> addr list option" where
  "body_list h a =
     (case deref h a of
        Some (RangeStmt _ _ _ (Some b)) \<Rightarrow>
          (case deref h b of Some (BlockStmt l) \<Rightarrow> Some l | _ \<Rightarrow> None)
      | _ \<Rightarrow> None)"

section \<open>The statements of the specification\<close>







text \<open>
  The glob semantics of a disable argument: a trailing \<open>*\<close> is removed and the rest is a
  prefix; an argument without it is the whole name.
\<close>

definition spec_disable_matches :: "string \<Rightarrow> string \<Rightarrow> bool" where
  "spec_disable_matches name d =
     (if HasSuffix d ''*'' then HasPrefix name (butlast d) else name = d)"

text \<open>The files a call of \<open>mutateExec\<close> leaves behind.\<close>

definition files_left :: "'a \<times> 'b \<times> filesys \<times> 'c \<Rightarrow> filesys" where
  "files_left r = fst (snd (snd r))"

section \<open>Example inputs\<close>

text \<open>
  A run on the file \<open>a.go\<close> whose mutant has been saved as \<open>/tmp/m/a.go.0\<close>.  In the example
  collaborators a tree is given by the bytes it prints to, formatting changes nothing, and
  the digest is a stand-in.
\<close>

definition ex_opts :: opts where
  "ex_opts =
     \<lparr>General_Debug = False, General_Verbose = False, Config_SilentMode = False,
      Exec_NoExec = False, Exec_Exec = []\<rparr>"

definition ex_ext :: "string ext" where
  "ex_ext =
     \<lparr>Fprint = Inr, Source = Inr, md5 = (\<lambda>b. of_nat (length b)),
      quoted = (\<lambda>s. [CHR 0x22] @ s @ [CHR 0x22]), FindOriginalStartLine = (\<lambda>d. 1)\<rparr>"

definition ex_outcomes :: outcomes where
  "ex_outcomes =
     \<lparr>write_fault = None,
      diff_cmd = \<lparr>combined = ''@@ -1 +1 @@'', err = ExitError 1\<rparr>,
      rename_fault = None, copy_fault = None,
      test_cmd = \<lparr>combined = ''FAIL'', err = ExitError 1\<rparr>,
      restore_fault = None, exec_start = None, exec_wait = NoError\<rparr>"

definition ex_files :: filesys where
  "ex_files = [''a.go'' \<mapsto> ''package a'', ''/tmp/m/a.go.0'' \<mapsto> ''package b'']"

definition ex_report :: report where
  "ex_report =
     \<lparr>Killed = [], Escaped = [], Errored = [],
      Stats = \<lparr>KilledCount = 0, EscapedCount = 0, SkippedCount = 0, DuplicatedCount = 0,
               ErrorCount = 0\<rparr>\<rparr>"

definition ex_world :: world where
  "ex_world = \<lparr>files = ex_files, blacklist = {}, rep = ex_report, printed = []\<rparr>"

definition ex_restore_fails :: outcomes where
  "ex_restore_fails = ex_outcomes\<lparr>restore_fault := Some ''permission denied''\<rparr>"

text \<open>A mutant counted as a duplicate: \<open>DuplicatedCount\<close> is incremented, nothing else.\<close>

definition duplicated :: "report \<Rightarrow> report" where
  "duplicated r = r\<lparr>Stats := (Stats r)\<lparr>DuplicatedCount := DuplicatedCount (Stats r) + 1\<rparr>\<rparr>"

definition ex_unformattable :: "string ext" where
  "ex_unformattable = ex_ext\<lparr>Source := (\<lambda>b. Inl ''expected declaration'')\<rparr>"

definition ex_seen_world :: world where
  "ex_seen_world = ex_world\<lparr>blacklist := {hex (md5 ex_ext ''package b'')}\<rparr>"

text \<open>
  A fingerprint as the specification describes a blacklist entry: 32 hexadecimal
  characters.
\<close>

definition is_fingerprint :: "string \<Rightarrow> bool" where
  "is_fingerprint s = (length s = 32 \<and> list_all (\<lambda>c. c \<in> set ''0123456789abcdefABCDEF'') s)"

text \<open>
  The blacklist files are well-formed for the code when each can be read and each of its
  lines is empty or 32 bytes long; \<open>lines_of\<close> are their non-empty lines.
\<close>

definition lines_ok :: "filesys \<Rightarrow> path list \<Rightarrow> bool" where
  "lines_ok fs fl =
     list_all (\<lambda>f. case fs f of None \<Rightarrow> False
                   | Some c \<Rightarrow> list_all (\<lambda>l. l = [] \<or> length l = 32) (Split_newline c)) fl"

definition lines_of :: "filesys \<Rightarrow> path list \<Rightarrow> string set" where
  "lines_of fs fl =
     {l. l \<noteq> [] \<and> (\<exists>f\<in>set fl. \<exists>c. fs f = Some c \<and> l \<in> set (Split_newline c))}"

definition ex_blacklist :: filesys where
  "ex_blacklist = [''blacklist'' \<mapsto> ''zzzzzzzzzzzzzzzzzzzzzzzzzzzzzzzz'' @ newline]"

definition ex_short_blacklist :: filesys where
  "ex_short_blacklist = [''blacklist'' \<mapsto> ''d41d8cd98f00b204e9800998ecf8427'']"

definition ex_seen_blacklist :: filesys where
  "ex_seen_blacklist = [''blacklist'' \<mapsto> ''00000000000000000000000000000009'']"

text \<open>
  A file with two range loops, at the addresses 1 and 5: the first has one statement in its
  body, the second an empty body.  \<open>ex_heap_called\<close> is the store after the mutator has been
  called on the first loop, \<open>ex_mutation\<close> the mutation it returns.
\<close>

definition ex_heap :: heap where
  "ex_heap =
     [OtherNode ''File'' [1, 5],
      RangeStmt None None 2 (Some 3), OtherNode ''Ident'' [], BlockStmt [4],
      OtherNode ''ExprStmt'' [],
      RangeStmt None None 2 (Some 6), BlockStmt []]"

definition ex_heap_called :: heap where
  "ex_heap_called = ex_heap @ [BlockStmt [8, 4], BranchStmt BREAK None]"

definition ex_mutation :: mutation where
  "ex_mutation = \<lparr>Change = assign_Body 1 (Some 7), Reset = assign_Body 1 (Some 3)\<rparr>"





section \<open>Classification of an executed mutant\<close>









section \<open>The disable arguments\<close>

text \<open>
  C9, evaluated on the code: with the disable argument \<open>loop/b*\<close> the code compares against
  the prefix \<open>loop/\<close> (two characters are cut off, not one), so \<open>loop/range_break\<close> is
  disabled although the glob semantics keeps it: it does not start with \<open>loop/b\<close>.  The
  lone argument \<open>*\<close> panics.
\<close>

theorem C9_disable_cuts_two_characters:
  "disable_matches ''loop/range_break'' ''loop/b*'' = Inr True
   \<and> spec_disable_matches ''loop/range_break'' ''loop/b*'' = False
   \<and> select_mutators new [''loop/break'', ''loop/range_break''] [''loop/b*''] [] = Inr []
   \<and> disable_matches ''loop/range_break'' ''*'' = Inl (Panic ''slice bounds out of range'')"
  by (simp add: disable_matches_def spec_disable_matches_def HasSuffix_def HasPrefix_def
        slice_to_def)

section \<open>The swap of the original file in internal mode\<close>

lemma restore_ok:
  "fs (file @ ''.tmp'') = Some c \<Longrightarrow> restore None file fs file = Some c"
  by (simp add: restore_def Rename_def)

lemma restore_absent:
  "fs (file @ ''.tmp'') = None \<Longrightarrow> restore f file fs = fs"
  by (simp add: restore_def Rename_def split: option.splits)

lemma restore_fails:
  "restore (Some e) file fs = fs"
  by (simp add: restore_def Rename_def)

lemma swap_tmp:
  assumes "fs file = Some original"
    and "swap_and_test opt oc file mutationFile diff mutant fs = (r, m, fs2, ev)"
  shows "(rename_fault oc = None \<and> fs2 (file @ ''.tmp'') = Some original)
         \<or> (rename_fault oc \<noteq> None \<and> fs2 = fs)"
  using assms
  by (auto simp: swap_and_test_def Rename_def CopyFile_def Let_def
           split: option.splits sum.splits prod.splits if_splits)

lemma swap_during_test:
  assumes "fs file = Some original" "fs mutationFile = Some mutated"
    and "mutationFile \<noteq> file" "mutationFile \<noteq> file @ ''.tmp''"
    and "swap_and_test opt oc file mutationFile diff mutant fs = (Inr code, m, fs2, ev)"
  shows "fs2 file = Some mutated \<and> fs2 (file @ ''.tmp'') = Some original"
  using assms
  by (auto simp: swap_and_test_def Rename_def CopyFile_def Let_def
           split: option.splits sum.splits prod.splits if_splits)

lemma mutateExec_restores:
  assumes orig: "fs file = Some original"
    and rest: "restore_fault oc = None"
    and stale: "rename_fault oc = None \<or> fs (file @ ''.tmp'') = None"
  shows "files_left (mutateExec opt x oc file mutationFile [] mutant fs) file = Some original"
proof -
  let ?diff = "combined (diff_cmd oc)"
  let ?m1 = "mutant\<lparr>OriginalStartLine := FindOriginalStartLine x ?diff\<rparr>"
  obtain r m fs2 ev where
    sw: "swap_and_test opt oc file mutationFile ?diff ?m1 fs = (r, m, fs2, ev)"
    by (metis prod_cases4)
  have after: "restore (restore_fault oc) file fs2 file = Some original"
  proof -
    from swap_tmp[OF orig sw] show ?thesis
    proof
      assume "rename_fault oc = None \<and> fs2 (file @ ''.tmp'') = Some original"
      then show ?thesis using rest by (simp add: restore_ok)
    next
      assume a: "rename_fault oc \<noteq> None \<and> fs2 = fs"
      with stale have "fs (file @ ''.tmp'') = None" by simp
      with a orig show ?thesis by (simp add: restore_absent)
    qed
  qed
  show ?thesis
    using orig after sw
    by (auto simp: files_left_def mutateExec_def Let_def split: sum.splits)
qed

text \<open>
  C2, as the code has it.  In internal mode, when the original file exists, the restoring
  rename is not failed by the operating system, and no stale \<open>.tmp\<close> file is picked up after
  a failed rename-aside, the original file holds its former content after \<open>mutateExec\<close>,
  whether it returns or panics (a failed copy, a test command that cannot be run, a failed
  \<open>diff\<close>).  While the tests run, the original file holds the mutant and the \<open>.tmp\<close> file the
  original.
\<close>

theorem C2_original_restored:
  assumes "fs file = Some original"
    and "restore_fault oc = None"
    and "rename_fault oc = None \<or> fs (file @ ''.tmp'') = None"
  shows "files_left (mutateExec opt x oc file mutationFile [] mutant fs) file = Some original
         \<and> (fs mutationFile = Some mutated \<and> mutationFile \<noteq> file
              \<and> mutationFile \<noteq> file @ ''.tmp''
              \<and> \<not> isl (fst (swap_and_test opt oc file mutationFile diff mutant fs))
            \<longrightarrow> files_left (swap_and_test opt oc file mutationFile diff mutant fs) file
                  = Some mutated
                \<and> files_left (swap_and_test opt oc file mutationFile diff mutant fs)
                    (file @ ''.tmp'') = Some original)"
proof (intro conjI impI)
  show "files_left (mutateExec opt x oc file mutationFile [] mutant fs) file = Some original"
    using assms by (rule mutateExec_restores)
next
  assume a: "fs mutationFile = Some mutated \<and> mutationFile \<noteq> file
             \<and> mutationFile \<noteq> file @ ''.tmp''
             \<and> \<not> isl (fst (swap_and_test opt oc file mutationFile diff mutant fs))"
  obtain r m fs2 ev where
    sw: "swap_and_test opt oc file mutationFile diff mutant fs = (r, m, fs2, ev)"
    by (metis prod_cases4)
  with a obtain code where "r = Inr code" by (cases r) auto
  with sw have sw': "swap_and_test opt oc file mutationFile diff mutant fs = (Inr code, m, fs2, ev)"
    by simp
  from a have "fs mutationFile = Some mutated" "mutationFile \<noteq> file"
    "mutationFile \<noteq> file @ ''.tmp''" by simp_all
  from swap_during_test[OF assms(1) this sw']
  have "fs2 file = Some mutated \<and> fs2 (file @ ''.tmp'') = Some original" .
  with sw show "files_left (swap_and_test opt oc file mutationFile diff mutant fs) file
                  = Some mutated"
    and "files_left (swap_and_test opt oc file mutationFile diff mutant fs) (file @ ''.tmp'')
           = Some original"
    by (simp_all add: files_left_def)
qed

lemma ex_swap_returns:
  "swap_and_test ex_opts ex_outcomes ''a.go'' ''/tmp/m/a.go.0'' [] empty_mutant ex_files
   = (Inr 0, empty_mutant\<lparr>Diff := []\<rparr>,
      [''a.go.tmp'' \<mapsto> ''package a'', ''/tmp/m/a.go.0'' \<mapsto> ''package b'',
       ''a.go'' \<mapsto> ''package b''], [])"
  by (auto simp: swap_and_test_def test_switch_def exit_status_def Rename_def CopyFile_def
        ex_opts_def ex_outcomes_def ex_files_def Let_def fun_upd_def)

theorem C2_original_restored_witness:
  "files_left (mutateExec ex_opts ex_ext ex_outcomes ''a.go'' ''/tmp/m/a.go.0'' []
                 empty_mutant ex_files) ''a.go'' = Some ''package a''
   \<and> files_left (swap_and_test ex_opts ex_outcomes ''a.go'' ''/tmp/m/a.go.0'' []
                   empty_mutant ex_files) ''a.go'' = Some ''package b''
   \<and> files_left (swap_and_test ex_opts ex_outcomes ''a.go'' ''/tmp/m/a.go.0'' []
                   empty_mutant ex_files) (''a.go'' @ ''.tmp'') = Some ''package a''"
proof -
  have h1: "ex_files ''a.go'' = Some ''package a''"
    by (simp add: ex_files_def)
  have h2: "restore_fault ex_outcomes = None"
    by (simp add: ex_outcomes_def)
  have h3: "rename_fault ex_outcomes = None \<or> ex_files (''a.go'' @ ''.tmp'') = None"
    by (simp add: ex_outcomes_def)
  have h4: "ex_files ''/tmp/m/a.go.0'' = Some ''package b'' \<and> ''/tmp/m/a.go.0'' \<noteq> ''a.go''
            \<and> ''/tmp/m/a.go.0'' \<noteq> ''a.go'' @ ''.tmp''
            \<and> \<not> isl (fst (swap_and_test ex_opts ex_outcomes ''a.go'' ''/tmp/m/a.go.0'' []
                              empty_mutant ex_files))"
    by (simp add: ex_swap_returns) (simp add: ex_files_def)
  from C2_original_restored[OF h1 h2 h3, of ex_opts ex_ext "''/tmp/m/a.go.0''" empty_mutant
      "''package b''" "[]"] h4
  show ?thesis by blast
qed

text \<open>
  The claim as stated fails when the operating system fails the restoring rename: the
  call returns the exit code and the original file holds the mutant.
\<close>

theorem C2_restore_failure_counterexample:
  "ex_files ''a.go'' = Some ''package a''
   \<and> fst (mutateExec ex_opts ex_ext ex_restore_fails ''a.go'' ''/tmp/m/a.go.0'' []
            empty_mutant ex_files) = Inr 0
   \<and> files_left (mutateExec ex_opts ex_ext ex_restore_fails ''a.go'' ''/tmp/m/a.go.0'' []
                   empty_mutant ex_files) ''a.go'' = Some ''package b''"
  by (simp add: mutateExec_def swap_and_test_def test_switch_def exit_status_def Rename_def
        CopyFile_def restore_def Debug_def files_left_def ex_opts_def ex_ext_def
        ex_outcomes_def ex_restore_fails_def ex_files_def Let_def)

lemma swap_and_test_restore_fault:
  "swap_and_test opt (oc\<lparr>restore_fault := f\<rparr>) file mutationFile diff mutant fs
   = swap_and_test opt oc file mutationFile diff mutant fs"
  by (simp add: swap_and_test_def split: prod.splits option.splits sum.splits)

lemma mutateExec_but_files:
  "fst (mutateExec opt x (oc\<lparr>restore_fault := f\<rparr>) file mutationFile execs mutant fs)
     = fst (mutateExec opt x oc file mutationFile execs mutant fs)
   \<and> fst (snd (mutateExec opt x (oc\<lparr>restore_fault := f\<rparr>) file mutationFile execs mutant fs))
     = fst (snd (mutateExec opt x oc file mutationFile execs mutant fs))
   \<and> snd (snd (snd (mutateExec opt x (oc\<lparr>restore_fault := f\<rparr>) file mutationFile execs
                      mutant fs)))
     = snd (snd (snd (mutateExec opt x oc file mutationFile execs mutant fs)))"
  by (simp add: mutateExec_def swap_and_test_restore_fault Let_def split_beta
           split: sum.splits option.splits)

lemma restore_elsewhere:
  "a \<noteq> file \<Longrightarrow> a \<noteq> file @ ''.tmp'' \<Longrightarrow> restore f file fs a = fs a"
  by (simp add: restore_def Rename_def split: option.splits)

lemma mutateExec_files_elsewhere:
  assumes "a \<noteq> file" and "a \<noteq> file @ ''.tmp''"
  shows "files_left (mutateExec opt x (oc\<lparr>restore_fault := f\<rparr>) file mutationFile execs
                       mutant fs) a
         = files_left (mutateExec opt x oc file mutationFile execs mutant fs) a"
  using assms
  by (simp add: mutateExec_def swap_and_test_restore_fault files_left_def restore_elsewhere
        Let_def split_beta split: sum.splits option.splits)

lemma run_mutant_cases:
  assumes "mutateExec opt x oc originalFile mutationFile execs mutant (files w) = (r, m, fs, ev)"
  shows "fst (run_mutant opt x oc originalFile mutationFile execs checksum mutant w)
         = (case r of Inl p \<Rightarrow> Some (Panicked p)
            | Inr c \<Rightarrow> (case fs mutationFile of
                          None \<Rightarrow> Some (Fatal ''no such file or directory'')
                        | Some src \<Rightarrow> None))"
    and "rep (snd (run_mutant opt x oc originalFile mutationFile execs checksum mutant w))
         = (case r of Inl p \<Rightarrow> rep w
            | Inr c \<Rightarrow> (case fs mutationFile of
                          None \<Rightarrow> rep w
                        | Some src \<Rightarrow>
                            fst (classify opt (quoted x mutationFile @ '' with checksum ''
                                               @ checksum) c
                                   (m\<lparr>MutatedSourceCode := src\<rparr>) (rep w))))"
    and "printed (snd (run_mutant opt x oc originalFile mutationFile execs checksum mutant w))
         = (case r of Inl p \<Rightarrow> printed w @ ev
            | Inr c \<Rightarrow> (case fs mutationFile of
                          None \<Rightarrow> printed w @ ev
                                  @ Debug opt (''Exited with '' @ decimal_int c)
                        | Some src \<Rightarrow>
                            printed w @ ev @ Debug opt (''Exited with '' @ decimal_int c)
                            @ snd (classify opt (quoted x mutationFile @ '' with checksum ''
                                                 @ checksum) c
                                     (m\<lparr>MutatedSourceCode := src\<rparr>) (rep w))))"
  using assms
  by (simp_all add: run_mutant_def Let_def split_beta split: sum.splits option.splits)

lemma run_mutant_restore_fault:
  assumes "mutationFile \<noteq> originalFile" and "mutationFile \<noteq> originalFile @ ''.tmp''"
  shows "fst (run_mutant opt x (oc\<lparr>restore_fault := f\<rparr>) originalFile mutationFile execs
                checksum mutant w)
         = fst (run_mutant opt x oc originalFile mutationFile execs checksum mutant w)
         \<and> rep (snd (run_mutant opt x (oc\<lparr>restore_fault := f\<rparr>) originalFile mutationFile
                        execs checksum mutant w))
           = rep (snd (run_mutant opt x oc originalFile mutationFile execs checksum mutant w))
         \<and> printed (snd (run_mutant opt x (oc\<lparr>restore_fault := f\<rparr>) originalFile
                            mutationFile execs checksum mutant w))
           = printed (snd (run_mutant opt x oc originalFile mutationFile execs checksum
                             mutant w))"
proof -
  obtain r m fs ev where
    a: "mutateExec opt x oc originalFile mutationFile execs mutant (files w) = (r, m, fs, ev)"
    by (metis prod_cases4)
  obtain r' m' fs' ev' where
    b: "mutateExec opt x (oc\<lparr>restore_fault := f\<rparr>) originalFile mutationFile execs mutant
          (files w) = (r', m', fs', ev')"
    by (metis prod_cases4)
  have "fst (mutateExec opt x (oc\<lparr>restore_fault := f\<rparr>) originalFile mutationFile execs
               mutant (files w))
        = fst (mutateExec opt x oc originalFile mutationFile execs mutant (files w))"
    "fst (snd (mutateExec opt x (oc\<lparr>restore_fault := f\<rparr>) originalFile mutationFile execs
                 mutant (files w)))
        = fst (snd (mutateExec opt x oc originalFile mutationFile execs mutant (files w)))"
    "snd (snd (snd (mutateExec opt x (oc\<lparr>restore_fault := f\<rparr>) originalFile mutationFile
                      execs mutant (files w))))
        = snd (snd (snd (mutateExec opt x oc originalFile mutationFile execs mutant
                           (files w))))"
    by (simp_all add: mutateExec_but_files)
  with a b have same: "r' = r" "m' = m" "ev' = ev" by simp_all
  have "files_left (mutateExec opt x (oc\<lparr>restore_fault := f\<rparr>) originalFile mutationFile
                      execs mutant (files w)) mutationFile
        = files_left (mutateExec opt x oc originalFile mutationFile execs mutant (files w))
            mutationFile"
    using assms by (rule mutateExec_files_elsewhere)
  with a b have fs: "fs' mutationFile = fs mutationFile" by (simp add: files_left_def)
  show ?thesis
    unfolding run_mutant_cases[OF a] run_mutant_cases[OF b] same fs by simp
qed

lemma mutateExec_failed_restore:
  assumes orig: "fs file = Some original" and mut: "fs mutationFile = Some mutated"
    and d1: "mutationFile \<noteq> file" and d2: "mutationFile \<noteq> file @ ''.tmp''"
    and ret: "\<not> isl (fst (mutateExec opt x (oc\<lparr>restore_fault := Some e\<rparr>) file mutationFile []
                             mutant fs))"
  shows "files_left (mutateExec opt x (oc\<lparr>restore_fault := Some e\<rparr>) file mutationFile []
                       mutant fs) (file @ ''.tmp'') = Some original
         \<and> files_left (mutateExec opt x (oc\<lparr>restore_fault := Some e\<rparr>) file mutationFile []
                         mutant fs) file = Some mutated"
proof -
  let ?oc = "oc\<lparr>restore_fault := Some e\<rparr>"
  let ?diff = "combined (diff_cmd ?oc)"
  let ?m1 = "mutant\<lparr>OriginalStartLine := FindOriginalStartLine x ?diff\<rparr>"
  obtain r m fs2 ev where
    sw: "swap_and_test opt ?oc file mutationFile ?diff ?m1 fs = (r, m, fs2, ev)"
    by (metis prod_cases4)
  from ret sw have r: "\<not> isl r"
    and left: "files_left (mutateExec opt x ?oc file mutationFile [] mutant fs) = fs2"
    by (auto simp: mutateExec_def files_left_def restore_fails Let_def
             split: sum.splits if_splits)
  then obtain code where "r = Inr code" by (cases r) auto
  with sw have "swap_and_test opt ?oc file mutationFile ?diff ?m1 fs = (Inr code, m, fs2, ev)"
    by simp
  from swap_during_test[OF orig mut d1 d2 this] left show ?thesis by simp
qed



text \<open>
  C6, as the code has it.  The error of the restoring rename is discarded: whatever the
  operating system answers to it, \<open>mutateExec\<close> gives the same exit code or panic, the same
  mutant record and the same output as when the rename succeeds, and a failed rename leaves
  the files as they are at that moment.  So the caller goes on as if nothing had happened:
  when the mutation file is neither the original file nor its \<open>.tmp\<close> copy, \<open>run_mutant\<close>
  stops or continues, classifies the mutant and prints exactly as with a successful restore.
  When \<open>mutateExec\<close> returns in internal mode after a failed restore, the original file
  holds the mutant and the \<open>.tmp\<close> file the original content.
\<close>

theorem C6_restore_error_discarded:
  "fst (mutateExec opt x (oc\<lparr>restore_fault := f\<rparr>) originalFile mutationFile execs mutant fs)
     = fst (mutateExec opt x (oc\<lparr>restore_fault := None\<rparr>) originalFile mutationFile execs
              mutant fs)
   \<and> fst (snd (mutateExec opt x (oc\<lparr>restore_fault := f\<rparr>) originalFile mutationFile execs
                  mutant fs))
     = fst (snd (mutateExec opt x (oc\<lparr>restore_fault := None\<rparr>) originalFile mutationFile execs
                   mutant fs))
   \<and> snd (snd (snd (mutateExec opt x (oc\<lparr>restore_fault := f\<rparr>) originalFile mutationFile
                      execs mutant fs)))
     = snd (snd (snd (mutateExec opt x (oc\<lparr>restore_fault := None\<rparr>) originalFile mutationFile
                        execs mutant fs)))
   \<and> restore (Some e) originalFile fs = fs
   \<and> (mutationFile \<noteq> originalFile \<and> mutationFile \<noteq> originalFile @ ''.tmp''
      \<longrightarrow> fst (run_mutant opt x (oc\<lparr>restore_fault := f\<rparr>) originalFile mutationFile execs
                  checksum mutant w)
          = fst (run_mutant opt x (oc\<lparr>restore_fault := None\<rparr>) originalFile mutationFile execs
                   checksum mutant w)
        \<and> rep (snd (run_mutant opt x (oc\<lparr>restore_fault := f\<rparr>) originalFile mutationFile
                       execs checksum mutant w))
          = rep (snd (run_mutant opt x (oc\<lparr>restore_fault := None\<rparr>) originalFile mutationFile
                        execs checksum mutant w))
        \<and> printed (snd (run_mutant opt x (oc\<lparr>restore_fault := f\<rparr>) originalFile
                           mutationFile execs checksum mutant w))
          = printed (snd (run_mutant opt x (oc\<lparr>restore_fault := None\<rparr>) originalFile
                            mutationFile execs checksum mutant w)))
   \<and> (mutationFile \<noteq> originalFile \<and> mutationFile \<noteq> originalFile @ ''.tmp''
        \<and> fs originalFile = Some original \<and> fs mutationFile = Some mutated
        \<and> \<not> isl (fst (mutateExec opt x (oc\<lparr>restore_fault := Some e\<rparr>) originalFile
                           mutationFile [] mutant fs))
      \<longrightarrow> files_left (mutateExec opt x (oc\<lparr>restore_fault := Some e\<rparr>) originalFile
                         mutationFile [] mutant fs) (originalFile @ ''.tmp'') = Some original
        \<and> files_left (mutateExec opt x (oc\<lparr>restore_fault := Some e\<rparr>) originalFile
                         mutationFile [] mutant fs) originalFile = Some mutated)"
proof (intro conjI impI)
  assume a: "mutationFile \<noteq> originalFile \<and> mutationFile \<noteq> originalFile @ ''.tmp''
        \<and> fs originalFile = Some original \<and> fs mutationFile = Some mutated
        \<and> \<not> isl (fst (mutateExec opt x (oc\<lparr>restore_fault := Some e\<rparr>) originalFile
                           mutationFile [] mutant fs))"
  then have "fs originalFile = Some original" "fs mutationFile = Some mutated"
    "mutationFile \<noteq> originalFile" "mutationFile \<noteq> originalFile @ ''.tmp''"
    "\<not> isl (fst (mutateExec opt x (oc\<lparr>restore_fault := Some e\<rparr>) originalFile
                     mutationFile [] mutant fs))"
    by simp_all
  from mutateExec_failed_restore[OF this]
  show "files_left (mutateExec opt x (oc\<lparr>restore_fault := Some e\<rparr>) originalFile
                      mutationFile [] mutant fs) (originalFile @ ''.tmp'') = Some original"
    and "files_left (mutateExec opt x (oc\<lparr>restore_fault := Some e\<rparr>) originalFile
                       mutationFile [] mutant fs) originalFile = Some mutated"
    by simp_all
qed (simp_all add: mutateExec_but_files restore_fails run_mutant_restore_fault)


lemma ex_restore_fails_returns:
  "\<not> isl (fst (mutateExec ex_opts ex_ext (ex_outcomes\<lparr>restore_fault := Some ''permission denied''\<rparr>)
                  ''a.go'' ''/tmp/m/a.go.0'' [] empty_mutant ex_files))"
  by (simp add: mutateExec_def swap_and_test_def test_switch_def exit_status_def Rename_def
        CopyFile_def restore_def Debug_def ex_opts_def ex_ext_def ex_outcomes_def ex_files_def
        Let_def)

theorem C6_restore_error_discarded_witness:
  "fst (run_mutant ex_opts ex_ext (ex_outcomes\<lparr>restore_fault := Some ''permission denied''\<rparr>)
          ''a.go'' ''/tmp/m/a.go.0'' [] ''c'' empty_mutant ex_world)
     = fst (run_mutant ex_opts ex_ext (ex_outcomes\<lparr>restore_fault := None\<rparr>)
              ''a.go'' ''/tmp/m/a.go.0'' [] ''c'' empty_mutant ex_world)
   \<and> rep (snd (run_mutant ex_opts ex_ext
                  (ex_outcomes\<lparr>restore_fault := Some ''permission denied''\<rparr>)
                  ''a.go'' ''/tmp/m/a.go.0'' [] ''c'' empty_mutant ex_world))
     = rep (snd (run_mutant ex_opts ex_ext (ex_outcomes\<lparr>restore_fault := None\<rparr>)
                   ''a.go'' ''/tmp/m/a.go.0'' [] ''c'' empty_mutant ex_world))
   \<and> printed (snd (run_mutant ex_opts ex_ext
                      (ex_outcomes\<lparr>restore_fault := Some ''permission denied''\<rparr>)
                      ''a.go'' ''/tmp/m/a.go.0'' [] ''c'' empty_mutant ex_world))
     = printed (snd (run_mutant ex_opts ex_ext (ex_outcomes\<lparr>restore_fault := None\<rparr>)
                       ''a.go'' ''/tmp/m/a.go.0'' [] ''c'' empty_mutant ex_world))
   \<and> files_left (mutateExec ex_opts ex_ext
                   (ex_outcomes\<lparr>restore_fault := Some ''permission denied''\<rparr>)
                   ''a.go'' ''/tmp/m/a.go.0'' [] empty_mutant ex_files) (''a.go'' @ ''.tmp'')
     = Some ''package a''
   \<and> files_left (mutateExec ex_opts ex_ext
                   (ex_outcomes\<lparr>restore_fault := Some ''permission denied''\<rparr>)
                   ''a.go'' ''/tmp/m/a.go.0'' [] empty_mutant ex_files) ''a.go''
     = Some ''package b''"
proof -
  have d: "''/tmp/m/a.go.0'' \<noteq> ''a.go'' \<and> ''/tmp/m/a.go.0'' \<noteq> ''a.go'' @ ''.tmp''"
    by simp
  have h: "''/tmp/m/a.go.0'' \<noteq> ''a.go'' \<and> ''/tmp/m/a.go.0'' \<noteq> ''a.go'' @ ''.tmp''
           \<and> ex_files ''a.go'' = Some ''package a''
           \<and> ex_files ''/tmp/m/a.go.0'' = Some ''package b''
           \<and> \<not> isl (fst (mutateExec ex_opts ex_ext
                             (ex_outcomes\<lparr>restore_fault := Some ''permission denied''\<rparr>)
                             ''a.go'' ''/tmp/m/a.go.0'' [] empty_mutant ex_files))"
    using ex_restore_fails_returns by (simp add: ex_files_def)
  note t = C6_restore_error_discarded[where opt = ex_opts and x = ex_ext and oc = ex_outcomes
      and f = "Some ''permission denied''" and e = "''permission denied''"
      and originalFile = "''a.go''" and mutationFile = "''/tmp/m/a.go.0''" and execs = "[]"
      and mutant = empty_mutant and fs = ex_files and w = ex_world and checksum = "''c''"
      and original = "''package a''" and mutated = "''package b''"]
  note r = t[THEN conjunct2, THEN conjunct2, THEN conjunct2, THEN conjunct2, THEN conjunct1,
      THEN mp, OF d]
  note l = t[THEN conjunct2, THEN conjunct2, THEN conjunct2, THEN conjunct2, THEN conjunct2,
      THEN mp, OF h]
  from r l show ?thesis by (intro conjI) simp_all
qed

text \<open>
  The claim as stated fails: with a failing restore the mutant is classified as killed, the
  process goes on, the only output is the PASS line, and the original file holds the mutant.
\<close>

theorem C6_silent_restore_failure_counterexample:
  "fst (run_mutant ex_opts ex_ext ex_restore_fails ''a.go'' ''/tmp/m/a.go.0'' [] ''c''
          empty_mutant ex_world) = None
   \<and> printed (snd (run_mutant ex_opts ex_ext ex_restore_fails ''a.go'' ''/tmp/m/a.go.0'' []
                      ''c'' empty_mutant ex_world))
     = [PrintPass (''PASS '' @ quoted ex_ext ''/tmp/m/a.go.0'' @ '' with checksum c''
                   @ newline)]
   \<and> files (snd (run_mutant ex_opts ex_ext ex_restore_fails ''a.go'' ''/tmp/m/a.go.0'' []
                    ''c'' empty_mutant ex_world)) ''a.go'' = Some ''package b''
   \<and> files (snd (run_mutant ex_opts ex_ext ex_restore_fails ''a.go'' ''/tmp/m/a.go.0'' []
                    ''c'' empty_mutant ex_world)) ''a.go.tmp'' = Some ''package a''"
  by (simp add: run_mutant_def mutateExec_def swap_and_test_def test_switch_def classify_def
        exit_status_def Rename_def CopyFile_def restore_def Debug_def ex_opts_def ex_ext_def
        ex_outcomes_def ex_restore_fails_def ex_files_def ex_world_def Let_def)

section \<open>Duplicates and the map of seen fingerprints\<close>

lemma saveAST_duplicate:
  "Fprint x node = Inr buf \<Longrightarrow> hex (md5 x buf) \<in> bl
   \<Longrightarrow> saveAST x wfault bl file node fs = ((hex (md5 x buf), True, None), bl, fs)"
  by (simp add: saveAST_def)

lemma saveAST_inserts:
  "Fprint x node = Inr buf \<Longrightarrow> hex (md5 x buf) \<notin> bl
   \<Longrightarrow> fst (snd (saveAST x wfault bl file node fs)) = insert (hex (md5 x buf)) bl"
  by (simp add: saveAST_def WriteFile_def Let_def split: sum.splits option.splits)

lemma saveAST_written:
  "Fprint x node = Inr buf \<Longrightarrow> hex (md5 x buf) \<notin> bl \<Longrightarrow> Source x buf = Inr src
   \<Longrightarrow> saveAST x None bl file node fs
       = ((hex (md5 x buf), False, None), insert (hex (md5 x buf)) bl, fs(file \<mapsto> src))"
  by (simp add: saveAST_def WriteFile_def Let_def)

lemma saveAST_failed:
  "Fprint x node = Inr buf \<Longrightarrow> hex (md5 x buf) \<notin> bl \<Longrightarrow> isl (Source x buf) \<or> wfault \<noteq> None
   \<Longrightarrow> \<exists>e. saveAST x wfault bl file node fs = (([], False, Some e), insert (hex (md5 x buf)) bl, fs)"
  by (auto simp: saveAST_def WriteFile_def Let_def split: sum.splits option.splits)

lemma saveAST_mono: "bl \<subseteq> fst (snd (saveAST x wfault bl file node fs))"
  by (auto simp: saveAST_def WriteFile_def Let_def split: sum.splits option.splits)

lemma run_mutant_blacklist:
  "blacklist (snd (run_mutant opt x oc originalFile mutationFile execs checksum mutant w))
   = blacklist w"
  by (simp add: run_mutant_def Let_def split_beta split: sum.splits option.splits)

lemma mutate_step_mono:
  "blacklist w
   \<subseteq> blacklist (snd (mutate_step opt x oc name originalFile mutatedFile execs i src w))"
proof (cases "files w originalFile")
  case None
  then show ?thesis by (simp add: mutate_step_def)
next
  case (Some code)
  obtain c d e bl fs where
    s: "saveAST x (write_fault oc) (blacklist w) (mutatedFile @ ''.'' @ decimal i) src (files w)
        = ((c, d, e), bl, fs)"
    by (metis prod_cases3)
  from saveAST_mono[of "blacklist w" x "write_fault oc" "mutatedFile @ ''.'' @ decimal i" src
      "files w"] s
  have "blacklist w \<subseteq> bl" by simp
  with Some s show ?thesis
    by (simp add: mutate_step_def Let_def run_mutant_blacklist split: option.splits)
qed

lemma mutate_changed_mono:
  "blacklist w
   \<subseteq> blacklist (snd (snd (mutate_changed opt x name originalFile mutatedFile execs ys i w)))"
proof (induction ys arbitrary: i w)
  case Nil
  then show ?case by simp
next
  case (Cons y ys)
  obtain src oc where y: "y = (src, oc)" by (cases y)
  obtain s w1 where
    st: "mutate_step opt x oc name originalFile mutatedFile execs i src w = (s, w1)"
    by (cases "mutate_step opt x oc name originalFile mutatedFile execs i src w")
  from mutate_step_mono[of w opt x oc name originalFile mutatedFile execs i src] st
  have 1: "blacklist w \<subseteq> blacklist w1" by simp
  show ?case
  proof (cases s)
    case None
    with y st Cons.IH[of w1 "i + 1"] 1 show ?thesis by auto
  next
    case (Some a)
    with y st 1 show ?thesis by simp
  qed
qed

lemma mutate_mono:
  "blacklist w
   \<subseteq> blacklist (snd (snd (mutate opt x ms i originalFile mutatedFile execs w)))"
proof (induction ms arbitrary: i w)
  case Nil
  then show ?case by simp
next
  case (Cons m ms)
  obtain name ys where m: "m = (name, ys)" by (cases m)
  let ?w = "w\<lparr>printed := printed w @ Debug opt (''Mutator '' @ name)\<rparr>"
  obtain s j w1 where
    st: "mutate_changed opt x name originalFile mutatedFile execs ys i ?w = (s, j, w1)"
    by (metis prod_cases3)
  from mutate_changed_mono[of ?w opt x name originalFile mutatedFile execs ys i] st
  have 1: "blacklist w \<subseteq> blacklist w1" by simp
  show ?case
  proof (cases s)
    case None
    with m st Cons.IH[of w1 j] 1 show ?thesis by auto
  next
    case (Some a)
    with m st 1 show ?thesis by simp
  qed
qed

lemma mutate_step_duplicate:
  assumes p: "Fprint x src = Inr buf" and d: "hex (md5 x buf) \<in> blacklist w"
    and f: "files w originalFile \<noteq> None"
  shows "mutate_step opt x oc name originalFile mutatedFile execs i src w
         = (None, w\<lparr>printed := printed w
                       @ Debug opt (quoted x (mutatedFile @ ''.'' @ decimal i)
                                    @ '' is a duplicate, we ignore it''),
                    rep := duplicated (rep w)\<rparr>)"
proof -
  from f obtain code where c: "files w originalFile = Some code" by auto
  have s: "saveAST x (write_fault oc) (blacklist w) (mutatedFile @ ''.'' @ decimal i) src (files w)
           = ((hex (md5 x buf), True, None), blacklist w, files w)"
    using p d by (rule saveAST_duplicate)
  show ?thesis
    using c s by (simp add: mutate_step_def duplicated_def Let_def)
qed

section \<open>Reading the blacklist files\<close>

lemma blacklist_lines_ok:
  "\<forall>l\<in>set ls. l = [] \<or> length l = 32
   \<Longrightarrow> blacklist_lines q ls bl = Inr (bl \<union> {l \<in> set ls. l \<noteq> []})"
  by (induction ls arbitrary: bl) auto

lemma blacklist_lines_bad:
  "\<not> (\<forall>l\<in>set ls. l = [] \<or> length l = 32)
   \<Longrightarrow> \<exists>l\<in>set ls. l \<noteq> [] \<and> length l \<noteq> 32
         \<and> blacklist_lines q ls bl = Inl (exitError (q l @ '' is not a MD5 checksum''))"
  by (induction ls arbitrary: bl) auto

lemma read_blacklists_ok:
  "lines_ok fs fl \<Longrightarrow> read_blacklists q fs fl bl = Inr (bl \<union> lines_of fs fl)"
proof (induction fl arbitrary: bl)
  case Nil
  then show ?case by (simp add: lines_of_def)
next
  case (Cons f fl)
  from Cons.prems obtain c where c: "fs f = Some c"
    and ls: "\<forall>l\<in>set (Split_newline c). l = [] \<or> length l = 32" and rest: "lines_ok fs fl"
    by (auto simp: lines_ok_def list_all_iff split: option.splits)
  have "lines_of fs (f # fl) = {l \<in> set (Split_newline c). l \<noteq> []} \<union> lines_of fs fl"
    using c by (auto simp: lines_of_def)
  with c blacklist_lines_ok[OF ls, of q bl] Cons.IH[OF rest] show ?case
    by (simp add: Un_assoc)
qed

lemma read_blacklists_bad:
  "\<not> lines_ok fs fl \<Longrightarrow> \<exists>msg. read_blacklists q fs fl bl = Inl (exitError msg)"
proof (induction fl arbitrary: bl)
  case Nil
  then show ?case by (simp add: lines_ok_def)
next
  case (Cons f fl)
  show ?case
  proof (cases "fs f")
    case None
    then show ?thesis by auto
  next
    case (Some c)
    show ?thesis
    proof (cases "\<forall>l\<in>set (Split_newline c). l = [] \<or> length l = 32")
      case True
      with Some Cons.prems have "\<not> lines_ok fs fl"
        by (simp add: lines_ok_def list_all_iff)
      from Cons.IH[OF this] Some blacklist_lines_ok[OF True, of q bl] show ?thesis
        by simp
    next
      case False
      from blacklist_lines_bad[OF this, of q bl] Some show ?thesis by auto
    qed
  qed
qed

text \<open>
  C7, as the code has it.  An empty line is skipped.  A non-empty line whose length is not 32
  bytes ends \<open>mainCmd\<close>: the message goes to the standard error, the result is
  \<open>returnError\<close>, and nothing that follows in \<open>mainCmd\<close> is run.  A line of 32 bytes is
  added to the map, whatever its characters.  So the run starts, with all non-empty lines in
  the map, exactly when every file can be read and has only empty lines and lines of 32
  bytes.
\<close>

theorem C7_blacklist_lines:
  "blacklist_lines q ([] # ls) bl = blacklist_lines q ls bl
   \<and> (l \<noteq> [] \<and> length l \<noteq> 32
        \<longrightarrow> blacklist_lines q (l # ls) bl
            = Inl ([Stderr (q l @ '' is not a MD5 checksum'' @ newline)], returnError))
   \<and> (length l = 32 \<longrightarrow> blacklist_lines q (l # ls) bl = blacklist_lines q ls (insert l bl))
   \<and> (\<not> lines_ok fs fl
        \<longrightarrow> (\<exists>msg. mainCmd_blacklist q fs fl rest = Inl ([Stderr (msg @ newline)], returnError)))
   \<and> (lines_ok fs fl \<longrightarrow> mainCmd_blacklist q fs fl rest = Inr (rest (lines_of fs fl)))"
proof (intro conjI impI)
  assume "\<not> lines_ok fs fl"
  from read_blacklists_bad[OF this, of q "{}"]
  show "\<exists>msg. mainCmd_blacklist q fs fl rest = Inl ([Stderr (msg @ newline)], returnError)"
    by (auto simp: mainCmd_blacklist_def exitError_def)
next
  assume "lines_ok fs fl"
  from read_blacklists_ok[OF this, of q "{}"]
  show "mainCmd_blacklist q fs fl rest = Inr (rest (lines_of fs fl))"
    by (simp add: mainCmd_blacklist_def)
qed (auto simp: exitError_def)

lemma ex_blacklist_ok: "lines_ok ex_blacklist [''blacklist'']"
  by (simp add: lines_ok_def ex_blacklist_def Split_newline_def newline_def)

lemma ex_blacklist_lines:
  "lines_of ex_blacklist [''blacklist''] = {''zzzzzzzzzzzzzzzzzzzzzzzzzzzzzzzz''}"
  by (auto simp: lines_of_def ex_blacklist_def Split_newline_def newline_def)

lemma ex_short_blacklist_bad: "\<not> lines_ok ex_short_blacklist [''blacklist'']"
  by (simp add: lines_ok_def ex_short_blacklist_def Split_newline_def)

theorem C7_blacklist_lines_witness:
  "blacklist_lines id [''d41d8cd98f00b204e9800998ecf8427''] {}
     = Inl ([Stderr (id ''d41d8cd98f00b204e9800998ecf8427'' @ '' is not a MD5 checksum''
                     @ newline)], returnError)
   \<and> blacklist_lines id [''d41d8cd98f00b204e9800998ecf8427e''] {}
     = blacklist_lines id [] (insert ''d41d8cd98f00b204e9800998ecf8427e'' {})
   \<and> (\<exists>msg. mainCmd_blacklist id ex_short_blacklist [''blacklist''] id
              = Inl ([Stderr (msg @ newline)], returnError))
   \<and> mainCmd_blacklist id ex_blacklist [''blacklist''] id
     = Inr (id (lines_of ex_blacklist [''blacklist'']))"
  using C7_blacklist_lines[of id "[]" "{}" "''d41d8cd98f00b204e9800998ecf8427''"
          ex_short_blacklist "[''blacklist'']" id]
        C7_blacklist_lines[of id "[]" "{}" "''d41d8cd98f00b204e9800998ecf8427e''"
          ex_blacklist "[''blacklist'']" id]
        ex_blacklist_ok ex_short_blacklist_bad
  by simp

text \<open>
  The claim as stated fails on a line of 32 characters that are not hexadecimal digits: it is
  accepted and added to the map.
\<close>

theorem C7_non_hex_line_counterexample:
  "mainCmd_blacklist id ex_blacklist [''blacklist''] id
     = Inr {''zzzzzzzzzzzzzzzzzzzzzzzzzzzzzzzz''}
   \<and> is_fingerprint ''zzzzzzzzzzzzzzzzzzzzzzzzzzzzzzzz'' = False"
  by (simp add: mainCmd_blacklist_def ex_blacklist_def Split_newline_def newline_def
        is_fingerprint_def)

text \<open>
  C3, as the code has it.  For a tree that prints without error: if its fingerprint is in
  the map, \<open>saveAST\<close> answers \<open>duplicate = true\<close> and leaves the map and the files as they
  are, and the caller only increments \<open>DuplicatedCount\<close>: no bucket, no other counter and no
  file changes, whatever the commands would have done.  Otherwise the fingerprint is inserted
  into the map, and when \<open>format.Source\<close> and \<open>os.WriteFile\<close> succeed the formatted bytes are
  written to the path and the fingerprint is returned.  A line of a blacklist file is in the
  map the run starts from, and a fingerprint in the map stays there for the rest of the run:
  such a mutant is never written or executed.
\<close>

theorem C3_duplicate_or_saved:
  assumes "Fprint x node = Inr buf"
  shows "(hex (md5 x buf) \<in> bl
            \<longrightarrow> saveAST x wfault bl file node fs = ((hex (md5 x buf), True, None), bl, fs))
         \<and> (hex (md5 x buf) \<in> blacklist w \<and> files w originalFile \<noteq> None
            \<longrightarrow> mutate_step opt x oc name originalFile mutatedFile execs i node w
                = (None, w\<lparr>printed := printed w
                             @ Debug opt (quoted x (mutatedFile @ ''.'' @ decimal i)
                                          @ '' is a duplicate, we ignore it''),
                           rep := duplicated (rep w)\<rparr>))
         \<and> (hex (md5 x buf) \<notin> bl
            \<longrightarrow> fst (snd (saveAST x wfault bl file node fs)) = insert (hex (md5 x buf)) bl)
         \<and> (hex (md5 x buf) \<notin> bl \<and> Source x buf = Inr src
            \<longrightarrow> saveAST x None bl file node fs
                = ((hex (md5 x buf), False, None), insert (hex (md5 x buf)) bl,
                   fs(file \<mapsto> src)))
         \<and> (lines_ok fs0 fl \<and> hex (md5 x buf) \<in> lines_of fs0 fl
            \<longrightarrow> (\<exists>bl0. read_blacklists q fs0 fl {} = Inr bl0 \<and> hex (md5 x buf) \<in> bl0))
         \<and> (hex (md5 x buf) \<in> blacklist w0
            \<longrightarrow> hex (md5 x buf)
                \<in> blacklist (snd (snd (mutate opt x ms i0 originalFile mutatedFile execs w0))))"
proof (intro conjI impI)
  assume "lines_ok fs0 fl \<and> hex (md5 x buf) \<in> lines_of fs0 fl"
  with read_blacklists_ok[of fs0 fl q "{}"]
  show "\<exists>bl0. read_blacklists q fs0 fl {} = Inr bl0 \<and> hex (md5 x buf) \<in> bl0"
    by simp
next
  assume "hex (md5 x buf) \<in> blacklist w0"
  with mutate_mono[of w0 opt x ms i0 originalFile mutatedFile execs]
  show "hex (md5 x buf)
          \<in> blacklist (snd (snd (mutate opt x ms i0 originalFile mutatedFile execs w0)))"
    by blast
next
  assume "hex (md5 x buf) \<in> blacklist w \<and> files w originalFile \<noteq> None"
  with assms
  show "mutate_step opt x oc name originalFile mutatedFile execs i node w
          = (None, w\<lparr>printed := printed w
                       @ Debug opt (quoted x (mutatedFile @ ''.'' @ decimal i)
                                    @ '' is a duplicate, we ignore it''),
                     rep := duplicated (rep w)\<rparr>)"
    by (simp add: mutate_step_duplicate)
qed (use assms in \<open>simp_all add: saveAST_duplicate saveAST_inserts saveAST_written\<close>)


lemma ex_fingerprint: "hex (md5 ex_ext ''package b'') = ''00000000000000000000000000000009''"
  by code_simp

lemma ex_seen_blacklist_ok:
  "lines_ok ex_seen_blacklist [''blacklist'']
   \<and> hex (md5 ex_ext ''package b'') \<in> lines_of ex_seen_blacklist [''blacklist'']"
  by (simp add: ex_fingerprint lines_ok_def lines_of_def ex_seen_blacklist_def Split_newline_def)

theorem C3_duplicate_or_saved_witness:
  "saveAST ex_ext None {hex (md5 ex_ext ''package b'')} ''/tmp/m/a.go.1'' ''package b'' ex_files
     = ((hex (md5 ex_ext ''package b''), True, None), {hex (md5 ex_ext ''package b'')}, ex_files)
   \<and> mutate_step ex_opts ex_ext ex_outcomes ''loop/range_break'' ''a.go'' ''/tmp/m/a.go'' [] 1
        ''package b'' ex_seen_world
     = (None, ex_seen_world\<lparr>printed := printed ex_seen_world
                 @ Debug ex_opts (quoted ex_ext (''/tmp/m/a.go'' @ ''.'' @ decimal 1)
                                  @ '' is a duplicate, we ignore it''),
               rep := duplicated (rep ex_seen_world)\<rparr>)
   \<and> fst (snd (saveAST ex_ext None {} ''/tmp/m/a.go.1'' ''package b'' ex_files))
     = insert (hex (md5 ex_ext ''package b'')) {}
   \<and> saveAST ex_ext None {} ''/tmp/m/a.go.1'' ''package b'' ex_files
     = ((hex (md5 ex_ext ''package b''), False, None), insert (hex (md5 ex_ext ''package b'')) {},
        ex_files(''/tmp/m/a.go.1'' \<mapsto> ''package b''))
   \<and> (\<exists>bl0. read_blacklists id ex_seen_blacklist [''blacklist''] {} = Inr bl0
              \<and> hex (md5 ex_ext ''package b'') \<in> bl0)
   \<and> hex (md5 ex_ext ''package b'')
       \<in> blacklist (snd (snd (mutate ex_opts ex_ext [] 0 ''a.go'' ''/tmp/m/a.go'' []
                                ex_seen_world)))"
proof -
  have p: "Fprint ex_ext ''package b'' = Inr ''package b''"
    by (simp add: ex_ext_def)
  have s: "Source ex_ext ''package b'' = Inr ''package b''"
    by (simp add: ex_ext_def)
  have w: "hex (md5 ex_ext ''package b'') \<in> blacklist ex_seen_world
           \<and> files ex_seen_world ''a.go'' \<noteq> None"
    by (simp add: ex_seen_world_def ex_world_def ex_files_def)
  have d: "hex (md5 ex_ext ''package b'') \<in> {hex (md5 ex_ext ''package b'')}"
    by simp
  have n: "hex (md5 ex_ext ''package b'') \<notin> {}"
    by simp
  note dup = C3_duplicate_or_saved[OF p, where bl = "{hex (md5 ex_ext ''package b'')}"
      and w = ex_seen_world and originalFile = "''a.go''" and ?fs0.0 = ex_seen_blacklist
      and fl = "[''blacklist'']" and ?w0.0 = ex_seen_world and wfault = None
      and fs = ex_files and opt = ex_opts and oc = ex_outcomes and q = id and ms = "[]"
      and ?i0.0 = 0 and mutatedFile = "''/tmp/m/a.go''" and execs = "[]" and i = 1
      and name = "''loop/range_break''" and src = "''package b''"]
  note new = C3_duplicate_or_saved[OF p, where bl = "{}" and src = "''package b''"
      and wfault = None and fs = ex_files]
  note c1 = dup[THEN conjunct1, THEN mp, OF d]
  note c2 = dup[THEN conjunct2, THEN conjunct1, THEN mp, OF w]
  note c3 = new[THEN conjunct2, THEN conjunct2, THEN conjunct1, THEN mp, OF n]
  note c4 = new[THEN conjunct2, THEN conjunct2, THEN conjunct2, THEN conjunct1, THEN mp,
      OF conjI[OF n s]]
  note c5 = dup[THEN conjunct2, THEN conjunct2, THEN conjunct2, THEN conjunct2,
      THEN conjunct1, THEN mp, OF ex_seen_blacklist_ok]
  note c6 = dup[THEN conjunct2, THEN conjunct2, THEN conjunct2, THEN conjunct2,
      THEN conjunct2, THEN mp, OF w[THEN conjunct1]]
  show ?thesis
    by (intro conjI) (rule c1 c2 c3 c4 c5 c6)+
qed

text \<open>
  The claim as stated fails when \<open>format.Source\<close> rejects the printed bytes: the fingerprint
  is new, yet no bytes are written and the fingerprint is not returned.
\<close>

theorem C3_unformattable_counterexample:
  "saveAST ex_unformattable None {} ''/tmp/m/a.go.1'' ''package b'' ex_files
     = (([], False, Some ''expected declaration''),
        {hex (md5 ex_unformattable ''package b'')}, ex_files)
   \<and> ex_files ''/tmp/m/a.go.1'' = None"
  by (simp add: saveAST_def ex_unformattable_def ex_ext_def ex_files_def Let_def)

lemma mutate_step_internal_error:
  assumes p: "Fprint x src = Inr buf" and n: "hex (md5 x buf) \<notin> blacklist w"
    and f: "files w originalFile \<noteq> None"
    and e: "isl (Source x buf) \<or> write_fault oc \<noteq> None"
  shows "\<exists>e. mutate_step opt x oc name originalFile mutatedFile execs i src w
             = (None, w\<lparr>blacklist := insert (hex (md5 x buf)) (blacklist w),
                        printed := printed w @ [Stdout (''INTERNAL ERROR '' @ e @ newline)]\<rparr>)"
proof -
  from f obtain code where c: "files w originalFile = Some code" by auto
  from saveAST_failed[OF p n e, of "mutatedFile @ ''.'' @ decimal i" "files w"]
  obtain m where
    s: "saveAST x (write_fault oc) (blacklist w) (mutatedFile @ ''.'' @ decimal i) src (files w)
        = (([], False, Some m), insert (hex (md5 x buf)) (blacklist w), files w)"
    by blast
  have "mutate_step opt x oc name originalFile mutatedFile execs i src w
             = (None, w\<lparr>blacklist := insert (hex (md5 x buf)) (blacklist w),
                        printed := printed w @ [Stdout (''INTERNAL ERROR '' @ m @ newline)]\<rparr>)"
    using c s by (simp add: mutate_step_def Let_def)
  then show ?thesis by blast
qed

text \<open>
  C10.  When the fingerprint of a tree is new and formatting or writing fails, \<open>saveAST\<close>
  returns the error with the fingerprint already in the map and no file written.  Every
  later call on a tree with the same printed bytes is a duplicate; in the loop of \<open>mutate\<close>
  the first mutant is reported as INTERNAL ERROR and the second is counted as a duplicate,
  with no file written for either.
\<close>

theorem C10_fingerprint_kept_on_error:
  assumes "Fprint x n1 = Inr buf" and "Fprint x n2 = Inr buf"
    and "hex (md5 x buf) \<notin> blacklist w"
    and "isl (Source x buf) \<or> write_fault oc1 \<noteq> None"
    and "files w originalFile \<noteq> None"
  shows "(\<exists>e. saveAST x (write_fault oc1) (blacklist w) file1 n1 fs
               = (([], False, Some e), insert (hex (md5 x buf)) (blacklist w), fs))
         \<and> (insert (hex (md5 x buf)) (blacklist w) \<subseteq> bl'
             \<longrightarrow> saveAST x wfault bl' file2 n2 fs' = ((hex (md5 x buf), True, None), bl', fs'))
         \<and> (\<exists>e. mutate_changed opt x name originalFile mutatedFile execs
                   [(n1, oc1), (n2, oc2)] i w
               = (None, i + 2,
                  w\<lparr>blacklist := insert (hex (md5 x buf)) (blacklist w),
                     printed := printed w @ [Stdout (''INTERNAL ERROR '' @ e @ newline)]
                       @ Debug opt (quoted x (mutatedFile @ ''.'' @ decimal (i + 1))
                                    @ '' is a duplicate, we ignore it''),
                     rep := duplicated (rep w)\<rparr>))"
proof (intro conjI impI)
  show "\<exists>e. saveAST x (write_fault oc1) (blacklist w) file1 n1 fs
               = (([], False, Some e), insert (hex (md5 x buf)) (blacklist w), fs)"
    using assms(1,3,4) by (rule saveAST_failed)
next
  assume "insert (hex (md5 x buf)) (blacklist w) \<subseteq> bl'"
  then have "hex (md5 x buf) \<in> bl'" by simp
  with assms(2) show "saveAST x wfault bl' file2 n2 fs' = ((hex (md5 x buf), True, None), bl', fs')"
    by (rule saveAST_duplicate)
next
  from mutate_step_internal_error[OF assms(1,3,5,4), of opt name mutatedFile execs i]
  obtain e where
    1: "mutate_step opt x oc1 name originalFile mutatedFile execs i n1 w
        = (None, w\<lparr>blacklist := insert (hex (md5 x buf)) (blacklist w),
                   printed := printed w @ [Stdout (''INTERNAL ERROR '' @ e @ newline)]\<rparr>)"
    by blast
  let ?w1 = "w\<lparr>blacklist := insert (hex (md5 x buf)) (blacklist w),
               printed := printed w @ [Stdout (''INTERNAL ERROR '' @ e @ newline)]\<rparr>"
  have "hex (md5 x buf) \<in> blacklist ?w1" "files ?w1 originalFile \<noteq> None"
    using assms(5) by simp_all
  from mutate_step_duplicate[OF assms(2) this, of opt oc2 name mutatedFile execs "i + 1"]
  have 2: "mutate_step opt x oc2 name originalFile mutatedFile execs (i + 1) n2 ?w1
           = (None, ?w1\<lparr>printed := printed ?w1
                         @ Debug opt (quoted x (mutatedFile @ ''.'' @ decimal (i + 1))
                                      @ '' is a duplicate, we ignore it''),
                       rep := duplicated (rep ?w1)\<rparr>)" .
  have "mutate_changed opt x name originalFile mutatedFile execs [(n1, oc1), (n2, oc2)] i w
        = (None, i + 2,
           w\<lparr>blacklist := insert (hex (md5 x buf)) (blacklist w),
              printed := printed w @ [Stdout (''INTERNAL ERROR '' @ e @ newline)]
                @ Debug opt (quoted x (mutatedFile @ ''.'' @ decimal (i + 1))
                             @ '' is a duplicate, we ignore it''),
              rep := duplicated (rep w)\<rparr>)"
    using 1 2 by simp
  then show "\<exists>e. mutate_changed opt x name originalFile mutatedFile execs
                   [(n1, oc1), (n2, oc2)] i w
               = (None, i + 2,
                  w\<lparr>blacklist := insert (hex (md5 x buf)) (blacklist w),
                     printed := printed w @ [Stdout (''INTERNAL ERROR '' @ e @ newline)]
                       @ Debug opt (quoted x (mutatedFile @ ''.'' @ decimal (i + 1))
                                    @ '' is a duplicate, we ignore it''),
                     rep := duplicated (rep w)\<rparr>)"
    by blast
qed

theorem C10_fingerprint_kept_on_error_witness:
  "(\<exists>e. saveAST ex_unformattable (write_fault ex_outcomes) (blacklist ex_world)
           ''/tmp/m/a.go.1'' ''package b'' ex_files
         = (([], False, Some e),
            insert (hex (md5 ex_unformattable ''package b'')) (blacklist ex_world), ex_files))
   \<and> saveAST ex_unformattable None
         (insert (hex (md5 ex_unformattable ''package b'')) (blacklist ex_world))
         ''/tmp/m/a.go.2'' ''package b'' ex_files
     = ((hex (md5 ex_unformattable ''package b''), True, None),
        insert (hex (md5 ex_unformattable ''package b'')) (blacklist ex_world), ex_files)
   \<and> (\<exists>e. mutate_changed ex_opts ex_unformattable ''loop/range_break'' ''a.go'' ''/tmp/m/a.go''
             [] [(''package b'', ex_outcomes), (''package b'', ex_outcomes)] 1 ex_world
         = (None, 1 + 2,
            ex_world\<lparr>blacklist := insert (hex (md5 ex_unformattable ''package b''))
                                     (blacklist ex_world),
                     printed := printed ex_world
                       @ [Stdout (''INTERNAL ERROR '' @ e @ newline)]
                       @ Debug ex_opts (quoted ex_unformattable
                                          (''/tmp/m/a.go'' @ ''.'' @ decimal (1 + 1))
                                        @ '' is a duplicate, we ignore it''),
                     rep := duplicated (rep ex_world)\<rparr>))"
proof -
  have p: "Fprint ex_unformattable ''package b'' = Inr ''package b''"
    by (simp add: ex_unformattable_def ex_ext_def)
  have n: "hex (md5 ex_unformattable ''package b'') \<notin> blacklist ex_world"
    by (simp add: ex_world_def)
  have e: "isl (Source ex_unformattable ''package b'') \<or> write_fault ex_outcomes \<noteq> None"
    by (simp add: ex_unformattable_def)
  have f: "files ex_world ''a.go'' \<noteq> None"
    by (simp add: ex_world_def ex_files_def)
  from C10_fingerprint_kept_on_error[OF p p n e f,
      where bl' = "insert (hex (md5 ex_unformattable ''package b'')) (blacklist ex_world)"
      and ?file1.0 = "''/tmp/m/a.go.1''" and ?file2.0 = "''/tmp/m/a.go.2''" and fs = ex_files
      and fs' = ex_files and wfault = None and opt = ex_opts and name = "''loop/range_break''"
      and mutatedFile = "''/tmp/m/a.go''" and execs = "[]" and ?oc2.0 = ex_outcomes and i = 1]
  show ?thesis by simp
qed

section \<open>The mutator loop/range\_break\<close>

lemma deref_append_old: "a < length h \<Longrightarrow> deref (h @ ext) a = deref h a"
  by (simp add: deref_def nth_append)

lemma deref_Some_less: "deref h a = Some n \<Longrightarrow> a < length h"
  by (simp add: deref_def split: if_splits)

lemma MutatorLoopRangeBreak_range:
  assumes n: "deref h node = Some (RangeStmt k v x (Some b))"
    and b: "deref h b = Some (BlockStmt l)"
  shows "MutatorLoopRangeBreak h node
         = Inr ([\<lparr>Change = assign_Body node (Some (length h)),
                   Reset = assign_Body node (Some b)\<rparr>],
                h @ [BlockStmt (Suc (length h) # l), BranchStmt BREAK None])"
proof -
  from b have bl: "b < length h" by (rule deref_Some_less)
  then show ?thesis
    using n b
    by (simp add: MutatorLoopRangeBreak_def alloc_def assign_List_def read_List_def deref_def
          nth_append list_update_append Let_def)
qed

lemma MutatorLoopRangeBreak_other:
  "\<not> is_range h node \<Longrightarrow> MutatorLoopRangeBreak h node = Inr ([], h)"
  by (auto simp: MutatorLoopRangeBreak_def is_range_def split: option.splits node.splits)

lemma range_cases:
  assumes "is_range h node" and "body_list h node = Some l"
  obtains k v x b where "deref h node = Some (RangeStmt k v x (Some b))"
    and "deref h b = Some (BlockStmt l)"
  using assms
  by (auto simp: is_range_def body_list_def split: option.splits node.splits)

lemma assign_Body_round:
  assumes "deref h node = Some (RangeStmt k v x b)"
  shows "assign_Body node b (assign_Body node c h) = h"
proof -
  from assms have l: "node < length h" and e: "h ! node = RangeStmt k v x b"
    by (auto simp: deref_def split: if_splits)
  then show ?thesis
    by (simp add: assign_Body_def deref_def list_update_id[of h node, unfolded e])
qed

lemma assign_Body_twice:
  "assign_Body node c (assign_Body node b (assign_Body node c h)) = assign_Body node c h"
  by (auto simp: assign_Body_def deref_def split: option.splits node.splits)

lemma assign_List_other:
  "a \<noteq> b \<Longrightarrow> deref (assign_List b l h) a = deref h a"
  by (auto simp: assign_List_def deref_def split: option.splits node.splits)

lemma operator_result:
  assumes "MutatorLoopRangeBreak h node = Inr (ms, h')" and "m \<in> set ms"
  obtains k v x body where "deref h' node = Some (RangeStmt k v x body)"
    and "Change m = assign_Body node (Some (length h))"
    and "Reset m = assign_Body node body"
proof -
  have r: "is_range h node"
  proof (rule ccontr)
    assume "\<not> is_range h node"
    from MutatorLoopRangeBreak_other[OF this] assms show False by simp
  qed
  then obtain k v x body where n: "deref h node = Some (RangeStmt k v x body)"
    by (auto simp: is_range_def split: option.splits node.splits)
  then have less: "node < length h" by (rule deref_Some_less)
  let ?h2 = "h @ [BlockStmt [], BranchStmt BREAK None]"
  let ?h3 = "assign_List (length h) [Suc (length h)] ?h2"
  from n assms(1) obtain l where l: "read_List ?h3 body = Inr l"
    and ms: "ms = [\<lparr>Change = assign_Body node (Some (length h)),
                     Reset = assign_Body node body\<rparr>]"
    and h': "h' = assign_List (length h) (Suc (length h) # l) ?h3"
    by (cases "read_List ?h3 body")
       (simp_all add: MutatorLoopRangeBreak_def alloc_def Let_def)
  from less n have "deref h' node = Some (RangeStmt k v x body)"
    unfolding h' by (simp add: assign_List_other deref_append_old)
  moreover from ms assms(2) have "Change m = assign_Body node (Some (length h))"
    "Reset m = assign_Body node body" by simp_all
  ultimately show ?thesis by (rule that)
qed

text \<open>
  C4.  For every mutation \<open>MutatorLoopRangeBreak\<close> returns, on the store it returns: \<open>Reset\<close>
  after \<open>Change\<close> gives back the very same store, so anything computed from the tree
  (\<open>pr\<close> stands for the printer, \<open>root\<close> for the file node) is what it was before \<open>Change\<close>;
  and \<open>Change\<close> after that gives the mutated store again.
\<close>

theorem C4_revert_after_apply:
  assumes "MutatorLoopRangeBreak h node = Inr (ms, h')" and "m \<in> set ms"
  shows "Reset m (Change m h') = h'
         \<and> Change m (Reset m (Change m h')) = Change m h'
         \<and> pr (Reset m (Change m h')) root = pr h' root
         \<and> pr (Change m (Reset m (Change m h'))) root = pr (Change m h') root"
proof -
  from assms obtain k v x body where n: "deref h' node = Some (RangeStmt k v x body)"
    and c: "Change m = assign_Body node (Some (length h))"
    and r: "Reset m = assign_Body node body"
    by (rule operator_result)
  have 1: "Reset m (Change m h') = h'"
    unfolding c r using n by (rule assign_Body_round)
  then show ?thesis by simp
qed


lemma is_range_grown:
  "is_range (h @ [BlockStmt l, BranchStmt t lab]) a = is_range h a"
  by (auto simp: is_range_def deref_def nth_append nth_Cons split: nat.splits)

lemma body_list_SomeD:
  "body_list h a = Some l
   \<Longrightarrow> \<exists>k v x b. deref h a = Some (RangeStmt k v x (Some b)) \<and> deref h b = Some (BlockStmt l)"
  by (auto simp: body_list_def split: option.splits node.splits)

lemma body_list_grown:
  assumes "body_list h a = Some l"
  shows "body_list (h @ ext) a = Some l"
proof -
  from body_list_SomeD[OF assms] obtain k v x b where
    a: "deref h a = Some (RangeStmt k v x (Some b))" and b: "deref h b = Some (BlockStmt l)"
    by blast
  from a b have "deref (h @ ext) a = Some (RangeStmt k v x (Some b))"
    "deref (h @ ext) b = Some (BlockStmt l)"
    by (simp_all add: deref_append_old deref_Some_less)
  then show ?thesis by (simp add: body_list_def)
qed

lemma run_one_mutation:
  assumes "deref h' node = Some (RangeStmt k v x body)"
  shows "run_mutations [\<lparr>Change = assign_Body node c, Reset = assign_Body node body\<rparr>] h'
         = ([assign_Body node c h'], h')"
  using assign_Body_round[OF assms, of c] by simp

lemma walk_node:
  assumes ok: "is_range h n \<longrightarrow> body_list h n \<noteq> None"
  shows "\<exists>ms h1 ys. MutatorLoopRangeBreak h n = Inr (ms, h1)
           \<and> run_mutations ms h1 = (ys, h1)
           \<and> length ys = (if is_range h n then 1 else 0)
           \<and> (\<forall>a. is_range h1 a = is_range h a)
           \<and> (\<forall>a l. body_list h a = Some l \<longrightarrow> body_list h1 a = Some l)"
proof (cases "is_range h n")
  case False
  then show ?thesis by (simp add: MutatorLoopRangeBreak_other)
next
  case True
  with ok obtain l where "body_list h n = Some l" by auto
  with True obtain k v x b where n: "deref h n = Some (RangeStmt k v x (Some b))"
    and b: "deref h b = Some (BlockStmt l)"
    by (rule range_cases)
  let ?h1 = "h @ [BlockStmt (Suc (length h) # l), BranchStmt BREAK None]"
  from n have "deref ?h1 n = Some (RangeStmt k v x (Some b))"
    by (simp add: deref_append_old deref_Some_less)
  from run_one_mutation[OF this, of "Some (length h)"] MutatorLoopRangeBreak_range[OF n b] True
  show ?thesis
    by (simp add: is_range_grown body_list_grown)
qed

lemma MutateWalk_count:
  "\<forall>n\<in>set nodes. is_range h n \<longrightarrow> body_list h n \<noteq> None
   \<Longrightarrow> \<exists>ys h'. MutateWalk nodes h = Inr (ys, h')
         \<and> length ys = length (filter (is_range h) nodes)"
proof (induction nodes arbitrary: h)
  case Nil
  then show ?case by simp
next
  case (Cons n nodes)
  from Cons.prems have "is_range h n \<longrightarrow> body_list h n \<noteq> None" by simp
  from walk_node[OF this] obtain ms h1 ys where
    op: "MutatorLoopRangeBreak h n = Inr (ms, h1)"
    and run: "run_mutations ms h1 = (ys, h1)"
    and len: "length ys = (if is_range h n then 1 else 0)"
    and same: "\<forall>a. is_range h1 a = is_range h a"
    and body: "\<forall>a l. body_list h a = Some l \<longrightarrow> body_list h1 a = Some l"
    by blast
  have "\<forall>n\<in>set nodes. is_range h1 n \<longrightarrow> body_list h1 n \<noteq> None"
  proof (intro ballI impI)
    fix a assume "a \<in> set nodes" "is_range h1 a"
    with Cons.prems same obtain l where "body_list h a = Some l" by auto
    with body show "body_list h1 a \<noteq> None" by simp
  qed
  from Cons.IH[OF this] obtain zs h' where
    walk: "MutateWalk nodes h1 = Inr (zs, h')"
    and lz: "length zs = length (filter (is_range h1) nodes)"
    by blast
  from same have "filter (is_range h1) nodes = filter (is_range h) nodes"
    by (intro filter_cong) simp_all
  with op run walk lz len show ?case by simp
qed

text \<open>
  C8.  On a node that is not a range statement the mutator returns no mutation and leaves
  the store alone.  On a range statement whose body is a block with the statements \<open>l\<close> it
  returns exactly one mutation and changes no node that existed; \<open>Change\<close> makes the loop
  point to a new block whose list is a \<open>break\<close> without label (allocated by the call)
  followed by \<open>l\<close>, touching no other node; \<open>Reset\<close> gives back the store with the original
  body.  Walking the nodes of a file yields as many mutants as there are range statements
  among them.
\<close>

theorem C8_range_break:
  "(\<not> is_range h node \<longrightarrow> MutatorLoopRangeBreak h node = Inr ([], h))
   \<and> (is_range h node \<and> body_list h node = Some l \<longrightarrow>
        (\<exists>m h'. MutatorLoopRangeBreak h node = Inr ([m], h')
           \<and> take (length h) h' = h
           \<and> is_range (Change m h') node
           \<and> body_list (Change m h') node = Some (Suc (length h) # l)
           \<and> deref (Change m h') (Suc (length h)) = Some (BranchStmt BREAK None)
           \<and> (\<forall>a. a \<noteq> node \<longrightarrow> deref (Change m h') a = deref h' a)
           \<and> Reset m (Change m h') = h'
           \<and> body_list (Reset m (Change m h')) node = Some l))
   \<and> ((\<forall>n\<in>set nodes. is_range h n \<longrightarrow> body_list h n \<noteq> None) \<longrightarrow>
        (\<exists>ys h'. MutateWalk nodes h = Inr (ys, h')
           \<and> length ys = length (filter (is_range h) nodes)))"
proof (intro conjI impI)
  assume "\<not> is_range h node"
  then show "MutatorLoopRangeBreak h node = Inr ([], h)"
    by (rule MutatorLoopRangeBreak_other)
next
  assume "\<forall>n\<in>set nodes. is_range h n \<longrightarrow> body_list h n \<noteq> None"
  then show "\<exists>ys h'. MutateWalk nodes h = Inr (ys, h')
           \<and> length ys = length (filter (is_range h) nodes)"
    by (rule MutateWalk_count)
next
  assume a: "is_range h node \<and> body_list h node = Some l"
  then obtain k v x b where n: "deref h node = Some (RangeStmt k v x (Some b))"
    and b: "deref h b = Some (BlockStmt l)"
    by (auto elim: range_cases)
  let ?h' = "h @ [BlockStmt (Suc (length h) # l), BranchStmt BREAK None]"
  let ?m = "\<lparr>Change = assign_Body node (Some (length h)), Reset = assign_Body node (Some b)\<rparr>"
  from n have less: "node < length h" and hn: "h ! node = RangeStmt k v x (Some b)"
    by (auto simp: deref_def split: if_splits)
  from b have bless: "b < length h" by (rule deref_Some_less)
  have n': "deref ?h' node = Some (RangeStmt k v x (Some b))"
    using n less by (simp add: deref_append_old)
  have ch: "Change ?m ?h' = ?h'[node := RangeStmt k v x (Some (length h))]"
    using n' by (simp add: assign_Body_def)
  have 1: "MutatorLoopRangeBreak h node = Inr ([?m], ?h')"
    using n b by (rule MutatorLoopRangeBreak_range)
  have 2: "take (length h) ?h' = h" by simp
  have 3: "is_range (Change ?m ?h') node"
    unfolding ch using less by (simp add: is_range_def deref_def)
  have 4: "body_list (Change ?m ?h') node = Some (Suc (length h) # l)"
    unfolding ch using less by (simp add: body_list_def deref_def nth_append)
  have 5: "deref (Change ?m ?h') (Suc (length h)) = Some (BranchStmt BREAK None)"
    unfolding ch using less by (simp add: deref_def nth_append)
  have 6: "\<forall>a. a \<noteq> node \<longrightarrow> deref (Change ?m ?h') a = deref ?h' a"
    unfolding ch by (simp add: deref_def)
  have 7: "Reset ?m (Change ?m ?h') = ?h'"
    using assign_Body_round[OF n', of "Some (length h)"] by simp
  have 8: "body_list (Reset ?m (Change ?m ?h')) node = Some l"
    unfolding 7 using a by (simp add: body_list_grown)
  from 1 2 3 4 5 6 7 8
  show "\<exists>m h'. MutatorLoopRangeBreak h node = Inr ([m], h')
           \<and> take (length h) h' = h
           \<and> is_range (Change m h') node
           \<and> body_list (Change m h') node = Some (Suc (length h) # l)
           \<and> deref (Change m h') (Suc (length h)) = Some (BranchStmt BREAK None)
           \<and> (\<forall>a. a \<noteq> node \<longrightarrow> deref (Change m h') a = deref h' a)
           \<and> Reset m (Change m h') = h'
           \<and> body_list (Reset m (Change m h')) node = Some l"
    by blast
qed


lemma ex_operator: "MutatorLoopRangeBreak ex_heap 1 = Inr ([ex_mutation], ex_heap_called)"
  using MutatorLoopRangeBreak_range[of ex_heap 1 None None 2 3 "[4]"]
  by (simp add: deref_def ex_heap_def ex_heap_called_def ex_mutation_def eval_nat_numeral)

theorem C4_revert_after_apply_witness:
  "Reset ex_mutation (Change ex_mutation ex_heap_called) = ex_heap_called
   \<and> Change ex_mutation (Reset ex_mutation (Change ex_mutation ex_heap_called))
       = Change ex_mutation ex_heap_called
   \<and> deref (Reset ex_mutation (Change ex_mutation ex_heap_called)) 0 = deref ex_heap_called 0
   \<and> deref (Change ex_mutation (Reset ex_mutation (Change ex_mutation ex_heap_called))) 0
       = deref (Change ex_mutation ex_heap_called) 0"
proof -
  have "ex_mutation \<in> set [ex_mutation]" by simp
  from C4_revert_after_apply[OF ex_operator this, of deref 0] show ?thesis .
qed

lemma ex_heap_ranges:
  "is_range ex_heap 0 = False" "is_range ex_heap 1" "body_list ex_heap 1 = Some [4]"
  "\<forall>n\<in>set [0, 1, 2, 3, 4, 5, 6]. is_range ex_heap n \<longrightarrow> body_list ex_heap n \<noteq> None"
  "filter (is_range ex_heap) [0, 1, 2, 3, 4, 5, 6] = [1, 5]"
  by (simp_all add: is_range_def body_list_def deref_def ex_heap_def)

theorem C8_range_break_witness:
  "MutatorLoopRangeBreak ex_heap 0 = Inr ([], ex_heap)
   \<and> (\<exists>m h'. MutatorLoopRangeBreak ex_heap 1 = Inr ([m], h')
         \<and> take (length ex_heap) h' = ex_heap
         \<and> is_range (Change m h') 1
         \<and> body_list (Change m h') 1 = Some (Suc (length ex_heap) # [4])
         \<and> deref (Change m h') (Suc (length ex_heap)) = Some (BranchStmt BREAK None)
         \<and> (\<forall>a. a \<noteq> 1 \<longrightarrow> deref (Change m h') a = deref h' a)
         \<and> Reset m (Change m h') = h'
         \<and> body_list (Reset m (Change m h')) 1 = Some [4])
   \<and> (\<exists>ys h'. MutateWalk [0, 1, 2, 3, 4, 5, 6] ex_heap = Inr (ys, h') \<and> length ys = 2)"
proof -
  note a = C8_range_break[of ex_heap 0 "[4]" "[0, 1, 2, 3, 4, 5, 6]"]
  note b = C8_range_break[of ex_heap 1 "[4]" "[0, 1, 2, 3, 4, 5, 6]"]
  have 1: "MutatorLoopRangeBreak ex_heap 0 = Inr ([], ex_heap)"
    using a[THEN conjunct1] ex_heap_ranges(1) by simp
  note 2 = b[THEN conjunct2, THEN conjunct1, THEN mp, OF conjI[OF ex_heap_ranges(2,3)]]
  have l: "length (filter (is_range ex_heap) [0, 1, 2, 3, 4, 5, 6]) = 2"
    unfolding ex_heap_ranges(5) by simp
  note 3 = b[THEN conjunct2, THEN conjunct2, THEN mp, OF ex_heap_ranges(4), unfolded l]
  from 1 2 3 show ?thesis by (intro conjI)
qed

section \<open>The fingerprint of a saved mutant\<close>












end
